theory Spec2Isabelle
  imports Main
begin

section \<open>Strings and numbers as the script uses them\<close>

text \<open>
  JavaScript strings are modelled as \<open>string\<close> (lists of characters). A string is
  falsy exactly when it is empty. Numbers read with \<open>parseInt\<close> are modelled as
  \<open>int\<close>; the value \<open>NaN\<close> that \<open>parseInt\<close> gives on a non-numeric
  attribute is outside the model.
\<close>

definition digit_char :: "nat \<Rightarrow> char" where
  "digit_char d = ''0123456789'' ! d"

text \<open>\<open>String(n)\<close> for a non-negative integer: its decimal digits.\<close>

fun str_of_nat :: "nat \<Rightarrow> string" where
  "str_of_nat n =
     (if n < 10 then [digit_char n] else str_of_nat (n div 10) @ [digit_char (n mod 10)])"

declare str_of_nat.simps [simp del]

text \<open>\<open>String(i)\<close> for an integer (\<open>-0\<close> prints as \<open>0\<close>).\<close>

definition str_of_int :: "int \<Rightarrow> string" where
  "str_of_int i = (if i < 0 then CHR ''-'' # str_of_nat (nat (- i)) else str_of_nat (nat i))"

text \<open>\<open>s.padStart(n, c)\<close> with a one-character pad string.\<close>

definition padStart :: "nat \<Rightarrow> char \<Rightarrow> string \<Rightarrow> string" where
  "padStart n c s = replicate (n - length s) c @ s"

text \<open>
  The remainder operator \<open>%\<close> of JavaScript on integers, for a positive divisor: the
  result has the sign of the dividend.
\<close>

definition js_rem :: "int \<Rightarrow> int \<Rightarrow> int" where
  "js_rem a b = (if a < 0 then - ((- a) mod b) else a mod b)"

subsection \<open>formatDuration\<close>

text \<open>
  \<^verbatim>\<open>
  function formatDuration(totalSec) {
    const h = Math.floor(totalSec / 3600);
    const m = Math.floor((totalSec % 3600) / 60);
    const s = totalSec % 60;
    return (h > 0 ? `${h}:${String(m).padStart(2,"0")}:${String(s).padStart(2,"0")}`
                  : `${m}:${String(s).padStart(2,"0")}`);
  }
  \<close>
  \<open>Math.floor\<close> of a quotient is the floor division \<open>div\<close> of \<open>int\<close>.
\<close>

definition formatDuration :: "int \<Rightarrow> string" where
  "formatDuration totalSec =
     (let h = totalSec div 3600;
          m = js_rem totalSec 3600 div 60;
          s = js_rem totalSec 60
      in if h > 0
         then str_of_int h @ '':'' @ padStart 2 CHR ''0'' (str_of_int m) @ '':''
              @ padStart 2 CHR ''0'' (str_of_int s)
         else str_of_int m @ '':'' @ padStart 2 CHR ''0'' (str_of_int s))"

text \<open>
  The display format in the words of the specification: a number below 100 zero-padded
  to two digits is its tens digit followed by its units digit; the format is
  \<open>M:SS\<close> while the hour component is zero and \<open>H:MM:SS\<close> otherwise, with hours and
  (in the short form) minutes unpadded.
\<close>

definition two_digits :: "nat \<Rightarrow> string" where
  "two_digits n = [digit_char (n div 10), digit_char (n mod 10)]"

definition spec_format :: "nat \<Rightarrow> string" where
  "spec_format t =
     (if t div 3600 = 0
      then str_of_nat (t div 60) @ '':'' @ two_digits (t mod 60)
      else str_of_nat (t div 3600) @ '':'' @ two_digits (t div 60 mod 60) @ '':''
           @ two_digits (t mod 60))"

section \<open>The quiz controller\<close>

text \<open>
  The state that \<open>initQuizPage\<close> keeps in its closure, together with the parts of
  the page it writes, is one record; every handler takes the session and returns it
  updated. A question carries the property key \<open>String(q.id)\<close> under which its
  answer is stored, its text and its option strings. The text goes into the page as
  markup; it is taken to add no control of its own to the page.
\<close>

record question =
  qid :: string
  qtext :: string
  options :: "string list"

text \<open>
  What the script can find at a position of \<open>questions\<close>: a question (an object
  whose \<open>options\<close> member is an array of strings); a falsy value other than
  \<open>null\<close> (\<open>0\<close>, \<open>false\<close>, the empty string, or no member at all);
  \<open>null\<close>; or a truthy value whose \<open>options\<close> member is not an array (a number,
  \<open>true\<close>, a string, an array, an object without options), with the property key
  that \<open>String(q.id)\<close> gives for it.
\<close>

datatype item = Q question | Falsy | Null | Opaque string

text \<open>The body of a request to \<open>/submit\<close>: \<open>{quiz_id, answers}\<close>.\<close>

record payload =
  quiz_id :: string
  panswers :: "string \<rightharpoonup> string"

text \<open>
  The content of \<open>#questionArea\<close>: what the markup put there, a placeholder message,
  or a rendered question: its index, the question, and for every option whether its
  radio button was written with the \<open>checked\<close> attribute.
\<close>

datatype area = Markup | Message string | Rendered nat question "bool list"

record session =
  quizId :: string
  questions :: "item list"
  questionsArray :: bool
  currentIndex :: nat
  answers :: "string \<rightharpoonup> string"
  timerSeconds :: int
  timerRunning :: bool
  questionArea :: area
  prevDisabled :: bool
  nextShown :: bool
  submitShown :: bool
  timerText :: string
  timerBackground :: string
  timerColor :: string
  timerBorderColor :: string
  posts :: "payload list"

text \<open>
  \<open>questionsArray\<close> is false when \<open>questions\<close> holds a value that is not an
  array; the list is then what the handlers read of the value, its \<open>length\<close> and
  its members at the positions below it. \<open>timerRunning\<close> says that the interval
  \<open>iv\<close> is installed; \<open>posts\<close> are the requests sent to \<open>/submit\<close>, in order.

  What the surrounding page supplies: the data attributes of \<open>body\<close> (the numbers
  already parsed) and the state in which the markup leaves the three buttons and the
  timer element, which the script reads or overwrites but never initialises.
\<close>

record page =
  dataQuizId :: "string option"
  dataTotal :: int
  dataTimerSeconds :: int
  markupPrevDisabled :: bool
  markupNextShown :: bool
  markupSubmitShown :: bool
  markupTimerText :: string

text \<open>
  \<^verbatim>\<open>if (!quizId || total === 0) return;\<close> comes before any listener is attached and
  before the fetch: \<open>None\<close> is the page on which nothing was set up.
\<close>

definition initQuizPage :: "page \<Rightarrow> session option" where
  "initQuizPage p =
     (case dataQuizId p of
        None \<Rightarrow> None
      | Some i \<Rightarrow>
          if i = [] \<or> dataTotal p = 0 then None
          else Some \<lparr>quizId = i, questions = [], questionsArray = True, currentIndex = 0,
                     answers = Map.empty, timerSeconds = dataTimerSeconds p,
                     timerRunning = False, questionArea = Markup,
                     prevDisabled = markupPrevDisabled p, nextShown = markupNextShown p,
                     submitShown = markupSubmitShown p, timerText = markupTimerText p,
                     timerBackground = [], timerColor = [], timerBorderColor = [],
                     posts = []\<rparr>)"

text \<open>\<^verbatim>\<open>const selected = answers[q.id] || null;\<close> An empty string is falsy.\<close>

definition selected :: "(string \<rightharpoonup> string) \<Rightarrow> question \<Rightarrow> string option" where
  "selected ans q = (case ans (qid q) of None \<Rightarrow> None | Some v \<Rightarrow> if v = [] then None else Some v)"

text \<open>
  \<open>renderQuestion\<close>: nothing happens when the value at the current index is
  missing or falsy (\<^verbatim>\<open>if (!q) return;\<close>). On a truthy value without an array of
  options \<open>q.options.map\<close> raises a \<open>TypeError\<close> while the markup is being built,
  before anything is written: the session is returned as it is, and \<open>renderThrows\<close>
  tells the caller. A question is written with \<open>checked\<close> on every option equal to
  the selected one, and the three buttons are set. The progress text and bar are not
  part of the model.
\<close>

fun is_opaque :: "item \<Rightarrow> bool" where
  "is_opaque (Opaque k) = True"
| "is_opaque it = False"

definition renderThrows :: "session \<Rightarrow> bool" where
  "renderThrows s \<longleftrightarrow>
     currentIndex s < length (questions s) \<and> is_opaque (questions s ! currentIndex s)"

definition renderQuestion :: "session \<Rightarrow> session" where
  "renderQuestion s =
     (if currentIndex s < length (questions s)
      then case questions s ! currentIndex s of
             Q q \<Rightarrow>
               let sel = selected (answers s) q
               in s\<lparr>questionArea := Rendered (currentIndex s) q (map (\<lambda>opt. sel = Some opt) (options q)),
                    prevDisabled := (currentIndex s = 0),
                    nextShown := (int (currentIndex s) < int (length (questions s)) - 1),
                    submitShown := (int (currentIndex s) = int (length (questions s)) - 1)\<rparr>
           | _ \<Rightarrow> s
      else s)"

text \<open>
  In both click handlers \<open>renderQuestion()\<close> is the last statement, so an exception
  in it leaves the handler with the index already changed.
\<close>

definition prevClick :: "session \<Rightarrow> session" where
  "prevClick s =
     (if currentIndex s > 0 then renderQuestion (s\<lparr>currentIndex := currentIndex s - 1\<rparr>) else s)"

definition nextClick :: "session \<Rightarrow> session" where
  "nextClick s =
     (if int (currentIndex s) < int (length (questions s)) - 1
      then renderQuestion (s\<lparr>currentIndex := currentIndex s + 1\<rparr>) else s)"

text \<open>
  \<^verbatim>\<open>questions.forEach(q => { if (answers[q.id]) payload.answers[String(q.id)] = answers[q.id]; });\<close>
\<close>

definition collect :: "(string \<rightharpoonup> string) \<Rightarrow> question list \<Rightarrow> (string \<rightharpoonup> string)" where
  "collect ans qs =
     fold (\<lambda>q acc. case ans (qid q) of
                      None \<Rightarrow> acc
                    | Some v \<Rightarrow> if v = [] then acc else acc(qid q \<mapsto> v)) qs Map.empty"

text \<open>
  The same loop over whatever the list holds: the loop reads \<open>q.id\<close> only, which is
  \<open>undefined\<close> on a falsy value and raises a \<open>TypeError\<close> on \<open>null\<close>.
\<close>

fun item_key :: "item \<Rightarrow> string" where
  "item_key (Q q) = qid q"
| "item_key (Opaque k) = k"
| "item_key it = ''undefined''"

definition collect_items :: "(string \<rightharpoonup> string) \<Rightarrow> item list \<Rightarrow> (string \<rightharpoonup> string)" where
  "collect_items ans its =
     fold (\<lambda>it acc. case ans (item_key it) of
                       None \<Rightarrow> acc
                     | Some v \<Rightarrow> if v = [] then acc else acc(item_key it \<mapsto> v)) its Map.empty"

text \<open>
  \<open>submitQuiz\<close> builds the payload and sends it; there is no other statement before
  the request. On a value that is not an array \<open>forEach\<close> is not a function, and on
  an array that holds \<open>null\<close> the loop raises: the exception leaves the handler before
  the request.
\<close>

definition submitQuiz :: "session \<Rightarrow> session" where
  "submitQuiz s =
     (if questionsArray s \<and> Null \<notin> set (questions s)
      then s\<lparr>posts := posts s @ [\<lparr>quiz_id = quizId s,
                                     panswers = collect_items (answers s) (questions s)\<rparr>]\<rparr>
      else s)"

definition updateTimerDisplay :: "session \<Rightarrow> session" where
  "updateTimerDisplay s =
     (let s' = s\<lparr>timerText := formatDuration (timerSeconds s)\<rparr>
      in if timerSeconds s < 30
         then s'\<lparr>timerBackground := ''#fee2e2'', timerColor := ''#991b1b'',
                 timerBorderColor := ''#fecaca''\<rparr>
         else s')"

definition startTimer :: "session \<Rightarrow> session" where
  "startTimer s = (updateTimerDisplay s)\<lparr>timerRunning := True\<rparr>"

text \<open>The callback of the interval.\<close>

definition tick :: "session \<Rightarrow> session" where
  "tick s =
     (let s' = s\<lparr>timerSeconds := timerSeconds s - 1\<rparr>
      in if timerSeconds s' \<le> 0
         then submitQuiz (s'\<lparr>timerRunning := False\<rparr>)
         else updateTimerDisplay s')"

text \<open>
  A string of the page as the HTML parser returns it after it was written through
  \<open>escapeHtml\<close>: the character references are undone, and the line breaks are
  normalised, a carriage return with a line feed after it and a carriage return alone
  both becoming one line feed. (The parser also replaces a NUL in an attribute by
  U+FFFD, a character outside the model, and drops it from text; the model leaves a
  NUL as it is.) The value of a radio button is its \<open>value\<close> attribute, read by the
  parser from \<^verbatim>\<open>value="${escapeHtml(opt)}"\<close>.
\<close>

fun parsed :: "string \<Rightarrow> string" where
  "parsed [] = []"
| "parsed [c] = [if c = CHR 0x0D then CHR 0x0A else c]"
| "parsed (c # d # cs) =
     (if c = CHR 0x0D
      then CHR 0x0A # (if d = CHR 0x0A then parsed cs else parsed (d # cs))
      else c # parsed (d # cs))"

text \<open>
  The \<open>change\<close> listener of the \<open>k\<close>-th radio button: it closes over the question
  that was rendered and stores \<open>e.target.value\<close>.
\<close>

definition change :: "nat \<Rightarrow> session \<Rightarrow> session" where
  "change k s =
     (case questionArea s of
        Rendered i q cs \<Rightarrow>
          if k < length (options q)
          then s\<lparr>answers := (answers s)(qid q \<mapsto> parsed (options q ! k))\<rparr> else s
      | _ \<Rightarrow> s)"

text \<open>
  The outcome of \<^verbatim>\<open>fetch(`/api/quiz/${quizId}`).then(r => r.json())\<close>:
  \<^item> \<open>Failed\<close>: a failure of the network or of the parser, or a body that is
    \<open>null\<close>; the \<open>catch\<close> callback runs and \<open>questions\<close> is still empty;
  \<^item> \<open>NotArray v\<close>: the \<open>questions\<close> member is a truthy value that is not an array;
    \<open>v\<close> lists what the handlers read of it: as many members as its \<open>length\<close>
    says, and none when it has no \<open>length\<close> that is a positive number (as a number,
    \<open>true\<close>, or an object without that member). A string is the list of its
    characters, each a truthy value without options. A \<open>length\<close> that is not a
    whole number is outside the model;
  \<^item> \<open>Questions qs\<close>: an array of questions;
  \<^item> \<open>Items its\<close>: any array; a missing or falsy member counts as the empty array.

  An exception of \<open>renderQuestion\<close> inside the \<open>then\<close> callback skips
  \<open>startTimer\<close> and runs the \<open>catch\<close> callback.
\<close>

datatype fetch_result = Failed | NotArray "item list" | Questions "question list" | Items "item list"

definition loadArray :: "item list \<Rightarrow> session \<Rightarrow> session" where
  "loadArray its s =
     (if its = []
      then s\<lparr>questions := [], questionArea := Message ''No questions could be loaded.''\<rparr>
      else if renderThrows (s\<lparr>questions := its\<rparr>)
      then s\<lparr>questions := its, questionArea := Message ''Error loading questions.''\<rparr>
      else startTimer (renderQuestion (s\<lparr>questions := its\<rparr>)))"

definition fetchResolved :: "fetch_result \<Rightarrow> session \<Rightarrow> session" where
  "fetchResolved r s =
     (case r of
        Failed \<Rightarrow> s\<lparr>questionArea := Message ''Error loading questions.''\<rparr>
      | NotArray v \<Rightarrow>
          s\<lparr>questions := v, questionsArray := False,
            questionArea := Message ''No questions could be loaded.''\<rparr>
      | Questions qs \<Rightarrow> loadArray (map Q qs) s
      | Items its \<Rightarrow> loadArray its s)"

text \<open>
  What can happen to a session: the interval fires, a button is clicked, a radio button
  changes. The browser runs the interval callback only while the interval is installed,
  and delivers a click only to a button that is enabled and displayed.
\<close>

datatype event = Tick | PrevClick | NextClick | SubmitClick | Change nat

fun dispatch :: "event \<Rightarrow> session \<Rightarrow> session" where
  "dispatch Tick s = (if timerRunning s then tick s else s)"
| "dispatch PrevClick s = (if prevDisabled s then s else prevClick s)"
| "dispatch NextClick s = (if nextShown s then nextClick s else s)"
| "dispatch SubmitClick s = (if submitShown s then submitQuiz s else s)"
| "dispatch (Change k) s = change k s"

definition run :: "event list \<Rightarrow> session \<Rightarrow> session" where
  "run evs s = fold dispatch evs s"

text \<open>The urgent style of the timer element.\<close>

definition urgent :: "session \<Rightarrow> bool" where
  "urgent s \<longleftrightarrow>
     timerBackground s = ''#fee2e2'' \<and> timerColor s = ''#991b1b''
     \<and> timerBorderColor s = ''#fecaca''"

section \<open>Invariants and sample data\<close>

text \<open>
  The invariant of a session whose questions were loaded: the question list is the one
  fetched, the index is a position of it, the question area holds the question at the
  index, and the three buttons are as \<open>renderQuestion\<close> sets them.
\<close>

fun area_shows :: "area \<Rightarrow> nat \<Rightarrow> question \<Rightarrow> bool" where
  "area_shows (Rendered i q cs) j r = (i = j \<and> q = r)"
| "area_shows _ j r = False"

definition active :: "question list \<Rightarrow> session \<Rightarrow> bool" where
  "active qs s \<longleftrightarrow>
     questions s = map Q qs \<and> questionsArray s \<and> currentIndex s < length qs
     \<and> area_shows (questionArea s) (currentIndex s) (qs ! currentIndex s)
     \<and> prevDisabled s = (currentIndex s = 0)
     \<and> nextShown s = (currentIndex s + 1 < length qs)
     \<and> submitShown s = (currentIndex s + 1 = length qs)"

text \<open>A page, its fresh session and a list of two questions, for concrete runs.\<close>

definition demo_page :: page where
  "demo_page = \<lparr>dataQuizId = Some ''7'', dataTotal = 2, dataTimerSeconds = 90,
     markupPrevDisabled = False, markupNextShown = True, markupSubmitShown = False,
     markupTimerText = ''--:--''\<rparr>"

definition demo_questions :: "question list" where
  "demo_questions =
     [\<lparr>qid = ''11'', qtext = ''Capital of France?'', options = [''Paris'', ''Rome'', ''Oslo'', ''Bern'']\<rparr>,
      \<lparr>qid = ''12'', qtext = ''2 + 2?'', options = [''3'', ''4'', ''5'', ''6'']\<rparr>]"

definition demo_session :: session where
  "demo_session = \<lparr>quizId = ''7'', questions = [], questionsArray = True, currentIndex = 0,
     answers = Map.empty, timerSeconds = 90, timerRunning = False, questionArea = Markup,
     prevDisabled = False, nextShown = True, submitShown = False, timerText = ''--:--'',
     timerBackground = [], timerColor = [], timerBorderColor = [], posts = []\<rparr>"







text \<open>
  The invariant of a timer started with a positive duration: the interval is installed
  exactly while time remains, and the text is that of the last positive value.
\<close>

definition counting :: "session \<Rightarrow> bool" where
  "counting s \<longleftrightarrow>
     0 \<le> timerSeconds s \<and> timerRunning s = (0 < timerSeconds s)
     \<and> timerText s = formatDuration (max 1 (timerSeconds s))"

text \<open>
  The events that select no option; and the runs in which no option is selected while
  the session is at index \<open>i\<close>.
\<close>

fun keeps_answers :: "event \<Rightarrow> bool" where
  "keeps_answers (Change k) = False"
| "keeps_answers e = True"

fun answers_elsewhere :: "nat \<Rightarrow> event list \<Rightarrow> session \<Rightarrow> bool" where
  "answers_elsewhere i [] s = True"
| "answers_elsewhere i (e # evs) s =
     ((keeps_answers e \<or> currentIndex s \<noteq> i) \<and> answers_elsewhere i evs (dispatch e s))"

text \<open>The strings that the HTML parser returns as they were written.\<close>

definition parser_keeps :: "string \<Rightarrow> bool" where
  "parser_keeps x \<longleftrightarrow> CHR 0x0D \<notin> set x \<and> CHR 0x00 \<notin> set x"

text \<open>
  The question area is fresh when it shows the current question as \<open>renderQuestion\<close>
  would write it from the answers recorded now.
\<close>

definition fresh :: "question list \<Rightarrow> session \<Rightarrow> bool" where
  "fresh qs s \<longleftrightarrow>
     questionArea s =
       (let q = qs ! currentIndex s
        in Rendered (currentIndex s) q (map (\<lambda>opt. selected (answers s) q = Some opt) (options q)))"

text \<open>
  Two questions, the first with an empty first option; and two questions, the first with
  a carriage return in its first option.
\<close>

definition blank_questions :: "question list" where
  "blank_questions =
     [\<lparr>qid = ''21'', qtext = ''Which one is blank?'', options = ['''', ''Rome'', ''Oslo'', ''Bern'']\<rparr>,
      \<lparr>qid = ''22'', qtext = ''2 + 2?'', options = [''3'', ''4'', ''5'', ''6'']\<rparr>]"

definition cr_questions :: "question list" where
  "cr_questions =
     [\<lparr>qid = ''31'', qtext = ''Which one has two lines?'',
       options = [[CHR ''a'', CHR 0x0D, CHR ''b''], ''Rome'', ''Oslo'', ''Bern'']\<rparr>,
      \<lparr>qid = ''32'', qtext = ''2 + 2?'', options = [''3'', ''4'', ''5'', ''6'']\<rparr>]"

text \<open>
  An answer is truthy when it is recorded and not the empty string; \<open>recorded\<close> says
  that every answer of the session belongs to a question of the list and is truthy.
\<close>

definition truthy_at :: "(string \<rightharpoonup> string) \<Rightarrow> string \<Rightarrow> bool" where
  "truthy_at ans k = (case ans k of None \<Rightarrow> False | Some v \<Rightarrow> v \<noteq> [])"

definition recorded :: "question list \<Rightarrow> session \<Rightarrow> bool" where
  "recorded qs s \<longleftrightarrow> (\<forall>k v. answers s k = Some v \<longrightarrow> k \<in> qid ` set qs \<and> v \<noteq> [])"

text \<open>Five questions with four options each.\<close>

definition five_questions :: "question list" where
  "five_questions =
     [\<lparr>qid = ''1'', qtext = ''Q1'', options = [''a'', ''b'', ''c'', ''d'']\<rparr>,
      \<lparr>qid = ''2'', qtext = ''Q2'', options = [''a'', ''b'', ''c'', ''d'']\<rparr>,
      \<lparr>qid = ''3'', qtext = ''Q3'', options = [''a'', ''b'', ''c'', ''d'']\<rparr>,
      \<lparr>qid = ''4'', qtext = ''Q4'', options = [''a'', ''b'', ''c'', ''d'']\<rparr>,
      \<lparr>qid = ''5'', qtext = ''Q5'', options = [''a'', ''b'', ''c'', ''d'']\<rparr>]"

section \<open>The admin table controller\<close>

text \<open>
  A character of the model is a code unit below 256. White space as \<open>\s\<close> and
  \<open>trim\<close> see it, among these: tab, line feed, vertical tab, form feed, carriage
  return, space and the no-break space. (The white space beyond 255, such as U+2003 or
  U+FEFF, is outside the model.)
\<close>

definition is_space :: "char \<Rightarrow> bool" where
  "is_space c \<longleftrightarrow>
     c = CHR 0x09 \<or> c = CHR 0x0A \<or> c = CHR 0x0B \<or> c = CHR 0x0C \<or> c = CHR 0x0D \<or> c = CHR 0x20
     \<or> c = CHR 0xA0"

definition trim :: "string \<Rightarrow> string" where
  "trim s = rev (dropWhile is_space (rev (dropWhile is_space s)))"

subsection \<open>Save\<close>

text \<open>
  The controls of a row in edit mode when Save is clicked: the identifier of the row and
  the values of the subject select, the question textarea, the option inputs in the
  order of their \<open>data-idx\<close>, the answer select, the difficulty select and the
  explanation textarea.
\<close>

record edit_row =
  rowId :: int
  editSubject :: string
  editQuestion :: string
  editOpts :: "string list"
  editAnswer :: string
  editDifficulty :: string
  editExpl :: string

text \<open>The body of a request to \<open>/admin/update_question\<close>.\<close>

record update_request =
  uid :: int
  usubject :: string
  uquestion :: string
  uoptions :: "string list"
  uanswer :: string
  udifficulty :: string
  uexplanation :: string

text \<open>
  The click on Save either shows an alert and returns, leaving the row as it is, or
  sends the update request.
\<close>

datatype save_result = Alert string | Update update_request

definition saveClick :: "edit_row \<Rightarrow> save_result" where
  "saveClick r =
     (let newQuestion = trim (editQuestion r);
          newOpts = map trim (editOpts r);
          newAnswer = editAnswer r
      in if length newOpts \<noteq> 4 \<or> [] \<in> set newOpts
         then Alert ''Please provide four options.''
         else if newQuestion = []
         then Alert ''Question cannot be empty.''
         else if newAnswer \<notin> set newOpts
         then Alert ''Correct answer must match an option.''
         else Update \<lparr>uid = rowId r, usubject = editSubject r, uquestion = newQuestion,
                       uoptions = newOpts, uanswer = newAnswer,
                       udifficulty = editDifficulty r, uexplanation = editExpl r\<rparr>)"

text \<open>Whether Save ended in an alert, and a row that passes the validation.\<close>

fun is_alert :: "save_result \<Rightarrow> bool" where
  "is_alert (Alert m) = True"
| "is_alert (Update u) = False"

definition paris_row :: edit_row where
  "paris_row = \<lparr>rowId = 3, editSubject = ''Physics'', editQuestion = ''Capital of France?'',
     editOpts = [''Paris'', ''Berlin'', ''London'', ''Rome''], editAnswer = ''Paris'',
     editDifficulty = ''Easy'', editExpl = ''''\<rparr>"

subsection \<open>Edit\<close>

text \<open>
  \<open>renderTable\<close> writes the options of a question into one cell, each after its
  letter, joined by \<open><br>\<close>; the letter of an index beyond the fourth is
  \<open>undefined\<close>. \<open>cell_text\<close> is the text content of that cell, which
  \<open>extractOptionsFromHtml\<close> reads back: the \<open><br>\<close> elements contribute nothing,
  and each option is there as the parser returns it.
\<close>

definition option_letter :: "nat \<Rightarrow> string" where
  "option_letter i = (if i < 4 then [''ABCD'' ! i] else ''undefined'')"

definition cell_text :: "string list \<Rightarrow> string" where
  "cell_text opts =
     concat (map (\<lambda>(i, opt). option_letter i @ '') '' @ parsed opt) (enumerate 0 opts))"

text \<open>
  A match of \<^verbatim>\<open>/\s*[A-D]KATEX_INLINE_CLOSE\s/\<close> at the start of a string, with what
  follows the match: white space, one of the four letters, the eighteen characters
  \<open>KATEX_INLINE_CLOSE\<close> as they stand in the pattern, and one white space. The
  greedy \<open>\s*\<close> takes the whole run of white space: with less, the next character
  would be white space and not a letter.
\<close>

definition matchLabel :: "string \<Rightarrow> string option" where
  "matchLabel xs =
     (case dropWhile is_space xs of
        [] \<Rightarrow> None
      | c # r \<Rightarrow>
          if c \<in> set ''ABCD'' \<and> take 18 r = ''KATEX_INLINE_CLOSE''
          then (case drop 18 r of
                  [] \<Rightarrow> None
                | w # rest \<Rightarrow> if is_space w then Some rest else None)
          else None)"

text \<open>
  \<open>text.split(re)\<close> for a pattern that matches no empty string: the scan keeps the
  piece read so far and tries a match at every position.
\<close>

function splitLabel :: "string \<Rightarrow> string \<Rightarrow> string list" where
  "splitLabel acc [] = [acc]"
| "splitLabel acc (x # xs) =
     (case matchLabel (x # xs) of
        Some rest \<Rightarrow> acc # splitLabel [] rest
      | None \<Rightarrow> splitLabel (acc @ [x]) xs)"
  by pat_completeness auto

termination
proof (relation "measure (\<lambda>(acc, xs). length xs)")
  show "wf (measure (\<lambda>(acc, xs). length xs))"
    by simp
next
  fix acc :: string and x xs rest
  assume "matchLabel (x # xs) = Some rest"
  then obtain c r w where d: "dropWhile is_space (x # xs) = c # r" and w: "drop 18 r = w # rest"
    by (auto simp: matchLabel_def split: list.splits if_splits)
  have "length rest < length (drop 18 r)"
    by (simp add: w del: length_drop)
  also have "\<dots> \<le> length r"
    by simp
  also have "\<dots> < length (c # r)"
    by simp
  also have "\<dots> = length (dropWhile is_space (x # xs))"
    by (simp only: d)
  also have "\<dots> \<le> length (x # xs)"
    by (rule length_dropWhile_le)
  finally show "(([], rest), (acc, x # xs)) \<in> measure (\<lambda>(acc, xs). length xs)"
    by simp
next
  fix acc :: string and x xs
  show "((acc @ [x], xs), (acc, x # xs)) \<in> measure (\<lambda>(acc, xs). length xs)"
    by simp
qed

text \<open>
  A match of \<^verbatim>\<open>/\s*[\r\n]+/\<close> at the start of a string: the run of white space must
  hold a line break, and the match ends after the last line break of the run.
\<close>

definition is_newline :: "char \<Rightarrow> bool" where
  "is_newline c \<longleftrightarrow> c = CHR 0x0A \<or> c = CHR 0x0D"

definition matchNewline :: "string \<Rightarrow> string option" where
  "matchNewline xs =
     (let ws = takeWhile is_space xs
      in if list_ex is_newline ws
         then Some (rev (takeWhile (\<lambda>c. \<not> is_newline c) (rev ws)) @ dropWhile is_space xs)
         else None)"

function splitNewline :: "string \<Rightarrow> string \<Rightarrow> string list" where
  "splitNewline acc [] = [acc]"
| "splitNewline acc (x # xs) =
     (case matchNewline (x # xs) of
        Some rest \<Rightarrow> acc # splitNewline [] rest
      | None \<Rightarrow> splitNewline (acc @ [x]) xs)"
  by pat_completeness auto

termination
proof (relation "measure (\<lambda>(acc, xs). length xs)")
  show "wf (measure (\<lambda>(acc, xs). length xs))"
    by simp
next
  fix acc :: string and x xs rest
  assume m: "matchNewline (x # xs) = Some rest"
  define ws where "ws = takeWhile is_space (x # xs)"
  from m have n: "list_ex is_newline ws"
    and r: "rest = rev (takeWhile (\<lambda>c. \<not> is_newline c) (rev ws)) @ dropWhile is_space (x # xs)"
    by (auto simp: matchNewline_def Let_def ws_def split: if_splits)
  have split: "length (takeWhile P ys) + length (dropWhile P ys) = length ys"
    for P and ys :: string
  proof -
    have "length (takeWhile P ys @ dropWhile P ys) = length ys"
      by simp
    then show ?thesis
      by (simp only: length_append)
  qed
  from n have "dropWhile (\<lambda>c. \<not> is_newline c) (rev ws) \<noteq> []"
    by (auto simp: list_ex_iff)
  then have "0 < length (dropWhile (\<lambda>c. \<not> is_newline c) (rev ws))"
    by simp
  moreover have "length (takeWhile (\<lambda>c. \<not> is_newline c) (rev ws))
      + length (dropWhile (\<lambda>c. \<not> is_newline c) (rev ws)) = length ws"
    using split [of "\<lambda>c. \<not> is_newline c" "rev ws"] by (simp only: length_rev)
  ultimately have "length (takeWhile (\<lambda>c. \<not> is_newline c) (rev ws)) < length ws"
    by linarith
  moreover have "length ws + length (dropWhile is_space (x # xs)) = length (x # xs)"
    unfolding ws_def by (rule split)
  ultimately have "length rest < length (x # xs)"
    unfolding r by simp
  then show "(([], rest), (acc, x # xs)) \<in> measure (\<lambda>(acc, xs). length xs)"
    by simp
next
  fix acc :: string and x xs
  show "((acc @ [x], xs), (acc, x # xs)) \<in> measure (\<lambda>(acc, xs). length xs)"
    by simp
qed

text \<open>\<^verbatim>\<open>s.replace(/^[A-D]KATEX_INLINE_CLOSE\s*/, "")\<close>\<close>

definition stripLabel :: "string \<Rightarrow> string" where
  "stripLabel s =
     (case s of
        [] \<Rightarrow> []
      | c # r \<Rightarrow>
          if c \<in> set ''ABCD'' \<and> take 18 r = ''KATEX_INLINE_CLOSE''
          then dropWhile is_space (drop 18 r) else s)"

text \<open>
  \<^verbatim>\<open>
  const parts = text.split(/\s*[A-D]KATEX_INLINE_CLOSE\s/).filter(Boolean);
  if (parts.length === 4) return parts.map(p => p.trim());
  return text.split(/\s*[\r\n]+/).map(s => s.replace(/^[A-D]KATEX_INLINE_CLOSE\s*/, ""))
             .filter(Boolean).slice(0,4);
  \<close>
\<close>

definition extractOptions :: "string \<Rightarrow> string list" where
  "extractOptions text =
     (let parts = filter (\<lambda>p. p \<noteq> []) (splitLabel [] text)
      in if length parts = 4 then map trim parts
         else take 4 (filter (\<lambda>p. p \<noteq> []) (map stripLabel (splitNewline [] text))))"

text \<open>
  The strings that \<open>onEdit\<close> writes as the values of the four option inputs of
  the edit row: \<^verbatim>\<open>opts[i]||""\<close>.
\<close>

definition prefill :: "string list \<Rightarrow> string list" where
  "prefill opts = map (\<lambda>i. if i < length opts then opts ! i else []) [0, 1, 2, 3]"

definition editOptions :: "string list \<Rightarrow> string list" where
  "editOptions opts = prefill (extractOptions (cell_text opts))"

section \<open>Properties of the duration format\<close>

lemma str_of_nat_small: "n < 10 \<Longrightarrow> str_of_nat n = [digit_char n]"
  by (simp add: str_of_nat.simps)

lemma str_of_nat_two: "10 \<le> n \<Longrightarrow> n < 100 \<Longrightarrow> str_of_nat n = two_digits n"
  by (subst str_of_nat.simps) (simp add: two_digits_def str_of_nat_small)

lemma pad_two_digits: "n < 100 \<Longrightarrow> padStart 2 CHR ''0'' (str_of_nat n) = two_digits n"
proof (cases "n < 10")
  case True
  then have "digit_char 0 = CHR ''0''" "n div 10 = 0"
    by (simp_all add: digit_char_def)
  with True show ?thesis
    by (simp add: padStart_def str_of_nat_small two_digits_def)
next
  case False
  assume "n < 100"
  with False have "str_of_nat n = two_digits n"
    by (simp add: str_of_nat_two)
  then show ?thesis
    by (simp add: padStart_def two_digits_def)
qed

lemma formatDuration_nat: "formatDuration (int t) = spec_format t"
proof -
  have s: "js_rem (int t) 60 = int (t mod 60)"
    by (simp add: js_rem_def zmod_int)
  have m: "js_rem (int t) 3600 div 60 = int (t div 60 mod 60)"
  proof -
    have "t mod (60 * 60) = 60 * (t div 60 mod 60) + t mod 60"
      by (rule mod_mult2_eq)
    then have "t mod 3600 div 60 = (60 * (t div 60 mod 60) + t mod 60) div 60"
      by simp
    then have "t mod 3600 div 60 = t div 60 mod 60"
      by simp
    then have "int (t mod 3600 div 60) = int (t div 60 mod 60)"
      by simp
    then have "int t mod 3600 div 60 = int (t div 60 mod 60)"
      by (simp add: zdiv_int zmod_int)
    then show ?thesis
      by (simp add: js_rem_def)
  qed
  have h: "int t div 3600 = int (t div 3600)"
    by (simp add: zdiv_int)
  have ps: "padStart 2 CHR ''0'' (str_of_nat (t mod 60)) = two_digits (t mod 60)"
    by (simp add: pad_two_digits)
  have pm: "padStart 2 CHR ''0'' (str_of_nat (t div 60 mod 60)) = two_digits (t div 60 mod 60)"
    by (simp add: pad_two_digits)
  show ?thesis
  proof (cases "t div 3600 = 0")
    case True
    then have "t div 60 mod 60 = t div 60"
      by (simp add: div_eq_0_iff)
    with True show ?thesis
      unfolding formatDuration_def Let_def s m h spec_format_def
      by (simp add: ps str_of_int_def)
  next
    case False
    then show ?thesis
      unfolding formatDuration_def Let_def s m h spec_format_def
      by (simp add: ps pm str_of_int_def)
  qed
qed

text \<open>
  C9. For every non-negative number of remaining seconds the timer text is \<open>M:SS\<close>
  (minutes unpadded, seconds padded to two digits) when the hour component is zero and
  \<open>H:MM:SS\<close> (hours unpadded, minutes and seconds padded to two digits) otherwise;
  45 seconds read \<open>0:45\<close> and 3661 seconds read \<open>1:01:01\<close>.
\<close>

theorem formatDuration_spec:
  "formatDuration (int t) = spec_format t
   \<and> formatDuration 45 = ''0:45''
   \<and> formatDuration 3661 = ''1:01:01''"
proof -
  have a: "formatDuration 45 = ''0:45''"
    by (simp add: formatDuration_def js_rem_def str_of_int_def padStart_def
        str_of_nat.simps digit_char_def)
  have b: "formatDuration 3661 = ''1:01:01''"
    by (simp add: formatDuration_def js_rem_def str_of_int_def padStart_def
        str_of_nat.simps digit_char_def)
  from a b show ?thesis
    by (simp add: formatDuration_nat)
qed

section \<open>Navigation\<close>

lemma run_Nil [simp]: "run [] s = s"
  by (simp add: run_def)

lemma run_Cons [simp]: "run (e # evs) s = run evs (dispatch e s)"
  by (simp add: run_def)

lemma run_append: "run (xs @ ys) s = run ys (run xs s)"
  by (simp add: run_def)

lemma active_render:
  "questions s = map Q qs \<Longrightarrow> questionsArray s \<Longrightarrow> currentIndex s < length qs
   \<Longrightarrow> active qs (renderQuestion s)"
  by (auto simp: active_def renderQuestion_def Let_def)

lemma fetch_questions:
  "qs \<noteq> [] \<Longrightarrow>
   fetchResolved (Questions qs) s = startTimer (renderQuestion (s\<lparr>questions := map Q qs\<rparr>))"
  by (auto simp: fetchResolved_def loadArray_def renderThrows_def)

lemma active_updateTimerDisplay: "active qs s \<Longrightarrow> active qs (updateTimerDisplay s)"
  by (simp add: active_def updateTimerDisplay_def Let_def)

lemma active_submitQuiz: "active qs s \<Longrightarrow> active qs (submitQuiz s)"
  by (simp add: active_def submitQuiz_def)

lemma active_tick: "active qs s \<Longrightarrow> active qs (tick s)"
proof -
  assume a: "active qs s"
  have b: "active qs (s\<lparr>timerSeconds := timerSeconds s - 1\<rparr>)"
    using a by (simp add: active_def)
  have c: "active qs (s\<lparr>timerSeconds := timerSeconds s - 1, timerRunning := False\<rparr>)"
    using a by (simp add: active_def)
  show ?thesis
    using b c by (simp add: tick_def Let_def active_submitQuiz active_updateTimerDisplay)
qed

lemma active_prevClick: "active qs s \<Longrightarrow> active qs (prevClick s)"
proof (cases "currentIndex s > 0")
  case True
  assume a: "active qs s"
  have "active qs (renderQuestion (s\<lparr>currentIndex := currentIndex s - 1\<rparr>))"
    using a True by (intro active_render) (auto simp: active_def)
  with True show ?thesis by (simp add: prevClick_def)
next
  case False
  assume "active qs s"
  with False show ?thesis by (simp add: prevClick_def)
qed

lemma active_nextClick: "active qs s \<Longrightarrow> active qs (nextClick s)"
proof (cases "int (currentIndex s) < int (length (questions s)) - 1")
  case True
  assume a: "active qs s"
  have "active qs (renderQuestion (s\<lparr>currentIndex := currentIndex s + 1\<rparr>))"
    using a True by (intro active_render) (auto simp: active_def)
  with True show ?thesis by (simp add: nextClick_def)
next
  case False
  assume "active qs s"
  with False show ?thesis by (simp add: nextClick_def)
qed

lemma active_change: "active qs s \<Longrightarrow> active qs (change k s)"
  by (auto simp: active_def change_def split: area.splits)

lemma active_dispatch: "active qs s \<Longrightarrow> active qs (dispatch e s)"
  by (cases e) (simp_all add: active_tick active_prevClick active_nextClick active_submitQuiz active_change)

lemma active_run: "active qs s \<Longrightarrow> active qs (run evs s)"
  by (induction evs arbitrary: s) (simp_all add: active_dispatch)

lemma active_timerRunning [simp]: "active qs (s\<lparr>timerRunning := b\<rparr>) = active qs s"
  by (simp add: active_def)

lemma active_loaded:
  "initQuizPage p = Some s0 \<Longrightarrow> qs \<noteq> [] \<Longrightarrow> active qs (fetchResolved (Questions qs) s0)"
proof -
  assume i: "initQuizPage p = Some s0" and q: "qs \<noteq> []"
  from i have "questionsArray s0" "currentIndex s0 = 0"
    by (auto simp: initQuizPage_def split: option.splits if_splits)
  then have "active qs (renderQuestion (s0\<lparr>questions := map Q qs\<rparr>))"
    using q by (intro active_render) simp_all
  then have "active qs (startTimer (renderQuestion (s0\<lparr>questions := map Q qs\<rparr>)))"
    by (simp add: startTimer_def active_updateTimerDisplay)
  then show ?thesis
    using q by (simp add: fetch_questions)
qed

lemma demo_init: "initQuizPage demo_page = Some demo_session"
  by (simp add: initQuizPage_def demo_page_def demo_session_def)

lemma currentIndex_renderQuestion [simp]: "currentIndex (renderQuestion s) = currentIndex s"
  by (simp add: renderQuestion_def Let_def split: item.splits)

lemma prevClick_index:
  "currentIndex (prevClick s) = (if currentIndex s = 0 then 0 else currentIndex s - 1)"
  by (simp add: prevClick_def)

lemma nextClick_index:
  "currentIndex (nextClick s) =
     (if int (currentIndex s) < int (length (questions s)) - 1 then currentIndex s + 1 else currentIndex s)"
  by (simp add: nextClick_def)

text \<open>
  C3. From index 0 on a non-empty question list, after every sequence of events (so
  after every sequence of Next and Previous clicks) the index is below the length of
  the list; Previous is disabled exactly at index 0, where its handler changes
  nothing, and elsewhere a click lowers the index by one; Next is hidden and Submit
  shown exactly at the last index, where the Next handler changes nothing, and
  elsewhere a click raises the index by one.
\<close>

theorem navigation_in_range:
  fixes evs :: "event list"
  assumes "initQuizPage p = Some s0" and "qs \<noteq> []"
  defines "s1 \<equiv> fetchResolved (Questions qs) s0"
  defines "s \<equiv> run evs s1"
  shows "currentIndex s1 = 0
    \<and> currentIndex s < length qs
    \<and> prevDisabled s = (currentIndex s = 0)
    \<and> nextShown s = (currentIndex s + 1 < length qs)
    \<and> submitShown s = (currentIndex s + 1 = length qs)
    \<and> currentIndex (dispatch PrevClick s) = (if currentIndex s = 0 then 0 else currentIndex s - 1)
    \<and> (prevClick s = s) = (currentIndex s = 0)
    \<and> currentIndex (dispatch NextClick s)
        = (if currentIndex s + 1 = length qs then currentIndex s else currentIndex s + 1)
    \<and> (nextClick s = s) = (currentIndex s + 1 = length qs)"
proof -
  have a1: "active qs s1"
    unfolding s1_def using assms(1,2) by (rule active_loaded)
  then have a: "active qs s"
    unfolding s_def by (rule active_run)
  from assms(1) have "currentIndex s0 = 0"
    by (auto simp: initQuizPage_def split: option.splits if_splits)
  then have i0: "currentIndex s1 = 0"
    using assms(2) by (simp add: s1_def fetch_questions startTimer_def updateTimerDisplay_def Let_def)
  have q: "questions s = map Q qs" and lt: "currentIndex s < length qs"
    and pd: "prevDisabled s = (currentIndex s = 0)"
    and ns: "nextShown s = (currentIndex s + 1 < length qs)"
    and ss: "submitShown s = (currentIndex s + 1 = length qs)"
    using a by (simp_all add: active_def)
  have p1: "currentIndex (dispatch PrevClick s) = (if currentIndex s = 0 then 0 else currentIndex s - 1)"
    using pd by (simp add: prevClick_index)
  have p2: "(prevClick s = s) = (currentIndex s = 0)"
  proof (cases "currentIndex s = 0")
    case True
    then show ?thesis by (simp add: prevClick_def)
  next
    case False
    then have "currentIndex (prevClick s) \<noteq> currentIndex s"
      by (simp add: prevClick_index)
    then have "prevClick s \<noteq> s" by auto
    with False show ?thesis by simp
  qed
  have n1: "currentIndex (dispatch NextClick s)
        = (if currentIndex s + 1 = length qs then currentIndex s else currentIndex s + 1)"
    using ns lt q by (auto simp: nextClick_index)
  have n2: "(nextClick s = s) = (currentIndex s + 1 = length qs)"
  proof (cases "currentIndex s + 1 = length qs")
    case True
    then show ?thesis using q by (simp add: nextClick_def)
  next
    case False
    then have "currentIndex (nextClick s) \<noteq> currentIndex s"
      using lt q by (auto simp: nextClick_index)
    then have "nextClick s \<noteq> s" by auto
    with False show ?thesis by simp
  qed
  from i0 lt pd ns ss p1 p2 n1 n2 show ?thesis by blast
qed

theorem navigation_in_range_witness:
  "initQuizPage demo_page = Some demo_session \<and> demo_questions \<noteq> []
   \<and> currentIndex (run [NextClick, NextClick, PrevClick, PrevClick]
        (fetchResolved (Questions demo_questions) demo_session)) < length demo_questions
   \<and> prevDisabled (run [NextClick, NextClick, PrevClick, PrevClick]
        (fetchResolved (Questions demo_questions) demo_session))"
proof -
  have h: "demo_questions \<noteq> []"
    by (simp add: demo_questions_def)
  have "currentIndex (run [NextClick, NextClick, PrevClick, PrevClick]
        (fetchResolved (Questions demo_questions) demo_session)) = 0"
    by (simp add: demo_questions_def demo_session_def fetch_questions startTimer_def
        updateTimerDisplay_def renderQuestion_def nextClick_def prevClick_def Let_def)
  with navigation_in_range [OF demo_init h, where evs = "[NextClick, NextClick, PrevClick, PrevClick]"]
  show ?thesis
    using demo_init h by simp
qed

section \<open>What each handler leaves unchanged\<close>

lemma renderQuestion_frame [simp]:
  "questions (renderQuestion s) = questions s"
  "questionsArray (renderQuestion s) = questionsArray s"
  "answers (renderQuestion s) = answers s"
  "quizId (renderQuestion s) = quizId s"
  "timerSeconds (renderQuestion s) = timerSeconds s"
  "timerRunning (renderQuestion s) = timerRunning s"
  "timerText (renderQuestion s) = timerText s"
  "timerBackground (renderQuestion s) = timerBackground s"
  "timerColor (renderQuestion s) = timerColor s"
  "timerBorderColor (renderQuestion s) = timerBorderColor s"
  "posts (renderQuestion s) = posts s"
  by (simp_all add: renderQuestion_def Let_def split: item.splits)

lemma prevClick_frame [simp]:
  "questions (prevClick s) = questions s"
  "questionsArray (prevClick s) = questionsArray s"
  "answers (prevClick s) = answers s"
  "quizId (prevClick s) = quizId s"
  "timerSeconds (prevClick s) = timerSeconds s"
  "timerRunning (prevClick s) = timerRunning s"
  "timerText (prevClick s) = timerText s"
  "timerBackground (prevClick s) = timerBackground s"
  "timerColor (prevClick s) = timerColor s"
  "timerBorderColor (prevClick s) = timerBorderColor s"
  "posts (prevClick s) = posts s"
  by (simp_all add: prevClick_def)

lemma nextClick_frame [simp]:
  "questions (nextClick s) = questions s"
  "questionsArray (nextClick s) = questionsArray s"
  "answers (nextClick s) = answers s"
  "quizId (nextClick s) = quizId s"
  "timerSeconds (nextClick s) = timerSeconds s"
  "timerRunning (nextClick s) = timerRunning s"
  "timerText (nextClick s) = timerText s"
  "timerBackground (nextClick s) = timerBackground s"
  "timerColor (nextClick s) = timerColor s"
  "timerBorderColor (nextClick s) = timerBorderColor s"
  "posts (nextClick s) = posts s"
  by (simp_all add: nextClick_def)

lemma change_frame [simp]:
  "questions (change k s) = questions s"
  "questionsArray (change k s) = questionsArray s"
  "currentIndex (change k s) = currentIndex s"
  "quizId (change k s) = quizId s"
  "timerSeconds (change k s) = timerSeconds s"
  "timerRunning (change k s) = timerRunning s"
  "timerText (change k s) = timerText s"
  "timerBackground (change k s) = timerBackground s"
  "timerColor (change k s) = timerColor s"
  "timerBorderColor (change k s) = timerBorderColor s"
  "posts (change k s) = posts s"
  "questionArea (change k s) = questionArea s"
  "prevDisabled (change k s) = prevDisabled s"
  "nextShown (change k s) = nextShown s"
  "submitShown (change k s) = submitShown s"
  by (simp_all add: change_def split: area.splits)

lemma submitQuiz_frame [simp]:
  "questions (submitQuiz s) = questions s"
  "questionsArray (submitQuiz s) = questionsArray s"
  "currentIndex (submitQuiz s) = currentIndex s"
  "answers (submitQuiz s) = answers s"
  "quizId (submitQuiz s) = quizId s"
  "timerSeconds (submitQuiz s) = timerSeconds s"
  "timerRunning (submitQuiz s) = timerRunning s"
  "timerText (submitQuiz s) = timerText s"
  "timerBackground (submitQuiz s) = timerBackground s"
  "timerColor (submitQuiz s) = timerColor s"
  "timerBorderColor (submitQuiz s) = timerBorderColor s"
  "questionArea (submitQuiz s) = questionArea s"
  "prevDisabled (submitQuiz s) = prevDisabled s"
  "nextShown (submitQuiz s) = nextShown s"
  "submitShown (submitQuiz s) = submitShown s"
  by (simp_all add: submitQuiz_def)

lemma updateTimerDisplay_frame [simp]:
  "questions (updateTimerDisplay s) = questions s"
  "questionsArray (updateTimerDisplay s) = questionsArray s"
  "currentIndex (updateTimerDisplay s) = currentIndex s"
  "answers (updateTimerDisplay s) = answers s"
  "quizId (updateTimerDisplay s) = quizId s"
  "timerSeconds (updateTimerDisplay s) = timerSeconds s"
  "timerRunning (updateTimerDisplay s) = timerRunning s"
  "timerText (updateTimerDisplay s) = formatDuration (timerSeconds s)"
  "posts (updateTimerDisplay s) = posts s"
  "questionArea (updateTimerDisplay s) = questionArea s"
  "prevDisabled (updateTimerDisplay s) = prevDisabled s"
  "nextShown (updateTimerDisplay s) = nextShown s"
  "submitShown (updateTimerDisplay s) = submitShown s"
  by (simp_all add: updateTimerDisplay_def Let_def)

lemma tick_frame [simp]:
  "questions (tick s) = questions s"
  "questionsArray (tick s) = questionsArray s"
  "currentIndex (tick s) = currentIndex s"
  "answers (tick s) = answers s"
  "quizId (tick s) = quizId s"
  "timerSeconds (tick s) = timerSeconds s - 1"
  "timerRunning (tick s) = (timerRunning s \<and> 1 < timerSeconds s)"
  "questionArea (tick s) = questionArea s"
  "prevDisabled (tick s) = prevDisabled s"
  "nextShown (tick s) = nextShown s"
  "submitShown (tick s) = submitShown s"
  by (auto simp: tick_def Let_def)

lemma posts_submitQuiz:
  "posts (submitQuiz s) =
     (if questionsArray s \<and> Null \<notin> set (questions s)
      then posts s @ [\<lparr>quiz_id = quizId s, panswers = collect_items (answers s) (questions s)\<rparr>]
      else posts s)"
  by (simp add: submitQuiz_def)

lemma posts_tick:
  "posts (tick s) =
     (if timerSeconds s \<le> 1 then posts (submitQuiz s) else posts s)"
  by (simp add: tick_def Let_def submitQuiz_def)

section \<open>The urgent style\<close>

lemma urgent_updateTimerDisplay:
  "urgent (updateTimerDisplay s) = (urgent s \<or> timerSeconds s < 30)"
  by (simp add: updateTimerDisplay_def Let_def urgent_def)

lemma urgent_frame [simp]:
  "urgent (s\<lparr>timerSeconds := x\<rparr>) = urgent s"
  "urgent (s\<lparr>timerRunning := b\<rparr>) = urgent s"
  "urgent (submitQuiz s) = urgent s"
  "urgent (renderQuestion s) = urgent s"
  "urgent (prevClick s) = urgent s"
  "urgent (nextClick s) = urgent s"
  "urgent (change k s) = urgent s"
  by (simp_all add: urgent_def)

lemma urgent_tick: "urgent (tick s) = (urgent s \<or> (1 < timerSeconds s \<and> timerSeconds s < 31))"
  by (auto simp: tick_def Let_def urgent_updateTimerDisplay)

lemma urgent_dispatch: "urgent s \<Longrightarrow> urgent (dispatch e s)"
  by (cases e) (simp_all add: urgent_tick)

lemma urgent_run: "urgent s \<Longrightarrow> urgent (run evs s)"
  by (induction evs arbitrary: s) (simp_all add: urgent_dispatch)

lemma below30_dispatch:
  "timerSeconds s < 30 \<longrightarrow> urgent s \<Longrightarrow> timerSeconds (dispatch e s) < 30 \<longrightarrow> urgent (dispatch e s)"
  by (cases e) (auto simp: urgent_tick)

lemma below30_run:
  "timerSeconds s < 30 \<longrightarrow> urgent s \<Longrightarrow> timerSeconds (run evs s) < 30 \<longrightarrow> urgent (run evs s)"
proof (induction evs arbitrary: s)
  case Nil
  then show ?case by simp
next
  case (Cons e evs)
  from Cons.prems have "timerSeconds (dispatch e s) < 30 \<longrightarrow> urgent (dispatch e s)"
    by (rule below30_dispatch)
  then show ?case
    using Cons.IH by simp
qed

lemma below30_loaded:
  "qs \<noteq> [] \<Longrightarrow> timerSeconds (fetchResolved (Questions qs) s0) < 30
     \<longrightarrow> urgent (fetchResolved (Questions qs) s0)"
  by (simp add: fetch_questions startTimer_def urgent_updateTimerDisplay)

text \<open>
  C8. Once the remaining time of a loaded session is below 30 seconds the urgent style
  is on the timer element, and it stays there through every later event, also when
  the remaining time is set back to any value \<open>t\<close>, with or without a display update.
\<close>

theorem urgent_permanent:
  fixes evs evs' :: "event list" and qs :: "question list" and s0 :: session
  assumes "qs \<noteq> []"
  defines "s \<equiv> run evs (fetchResolved (Questions qs) s0)"
  assumes "timerSeconds s < 30"
  shows "urgent s \<and> urgent (run evs' s)
    \<and> urgent (run evs' (s\<lparr>timerSeconds := t\<rparr>))
    \<and> urgent (run evs' (updateTimerDisplay (s\<lparr>timerSeconds := t\<rparr>)))"
proof -
  have "timerSeconds s < 30 \<longrightarrow> urgent s"
    unfolding s_def using assms(1) by (intro below30_run below30_loaded)
  with assms(3) have u: "urgent s" by simp
  then have "urgent (updateTimerDisplay (s\<lparr>timerSeconds := t\<rparr>))"
    by (simp add: urgent_updateTimerDisplay)
  with u show ?thesis
    by (simp add: urgent_run)
qed

lemma loaded_timer [simp]:
  "qs \<noteq> [] \<Longrightarrow> timerSeconds (fetchResolved (Questions qs) s0) = timerSeconds s0"
  "qs \<noteq> [] \<Longrightarrow> timerRunning (fetchResolved (Questions qs) s0)"
  "qs \<noteq> [] \<Longrightarrow> posts (fetchResolved (Questions qs) s0) = posts s0"
  "qs \<noteq> [] \<Longrightarrow> timerText (fetchResolved (Questions qs) s0) = formatDuration (timerSeconds s0)"
  by (simp_all add: fetch_questions startTimer_def)

theorem urgent_permanent_witness:
  "demo_questions \<noteq> []
   \<and> timerSeconds (run [Tick, Tick]
        (fetchResolved (Questions demo_questions) (demo_session\<lparr>timerSeconds := 31\<rparr>))) < 30
   \<and> urgent (run [Tick, PrevClick] (updateTimerDisplay
        ((run [Tick, Tick]
           (fetchResolved (Questions demo_questions) (demo_session\<lparr>timerSeconds := 31\<rparr>)))
         \<lparr>timerSeconds := 45\<rparr>)))"
proof -
  have h1: "demo_questions \<noteq> []"
    by (simp add: demo_questions_def)
  have h2: "timerSeconds (run [Tick, Tick]
        (fetchResolved (Questions demo_questions) (demo_session\<lparr>timerSeconds := 31\<rparr>))) < 30"
    using h1 by simp
  from urgent_permanent [OF h1 h2, where evs' = "[Tick, PrevClick]" and t = 45] h1 h2
  show ?thesis by blast
qed

section \<open>Submissions\<close>

lemma dispatch_posts_bound:
  "length (posts (dispatch e s)) + (if timerRunning (dispatch e s) then 1 else 0)
   \<le> length (posts s) + (if e = SubmitClick then 1 else 0) + (if timerRunning s then 1 else 0)"
  by (cases e) (auto simp: posts_tick posts_submitQuiz)

lemma run_posts_bound:
  "length (posts (run evs s)) + (if timerRunning (run evs s) then 1 else 0)
   \<le> length (posts s) + count_list evs SubmitClick + (if timerRunning s then 1 else 0)"
proof (induction evs arbitrary: s)
  case Nil
  then show ?case by simp
next
  case (Cons e evs)
  have "length (posts (run evs (dispatch e s))) + (if timerRunning (run evs (dispatch e s)) then 1 else 0)
        \<le> length (posts (dispatch e s)) + count_list evs SubmitClick
           + (if timerRunning (dispatch e s) then 1 else 0)"
    by (rule Cons.IH)
  also have "\<dots> \<le> length (posts s) + (if e = SubmitClick then 1 else 0)
        + (if timerRunning s then 1 else 0) + count_list evs SubmitClick"
    using dispatch_posts_bound [of e s] by linarith
  finally have b: "length (posts (run evs (dispatch e s)))
        + (if timerRunning (run evs (dispatch e s)) then 1 else 0)
        \<le> length (posts s) + (if e = SubmitClick then 1 else 0)
        + (if timerRunning s then 1 else 0) + count_list evs SubmitClick" .
  have r: "run (e # evs) s = run evs (dispatch e s)"
    by simp
  have c: "count_list (e # evs) SubmitClick = count_list evs SubmitClick + (if e = SubmitClick then 1 else 0)"
    by simp
  from b show ?case
    unfolding r c by linarith
qed

lemma init_posts: "initQuizPage p = Some s0 \<Longrightarrow> posts s0 = []"
  by (auto simp: initQuizPage_def split: option.splits if_splits)

text \<open>
  C1, as the script has it. There is no submitted flag. A loaded session sends at most
  one request per Submit click and one more for the timer: every click on the shown
  Submit button sends one request and leaves the interval as it is; the tick that
  brings the remaining time to zero or below sends one request and clears the
  interval, after which no tick does anything.
\<close>

theorem submissions_bounded:
  fixes evs :: "event list" and qs :: "question list" and s0 :: session
  assumes "initQuizPage p = Some s0" and "qs \<noteq> []"
  defines "s \<equiv> run evs (fetchResolved (Questions qs) s0)"
  shows "length (posts s) \<le> count_list evs SubmitClick + 1
    \<and> length (posts (dispatch SubmitClick s)) = length (posts s) + (if submitShown s then 1 else 0)
    \<and> timerRunning (dispatch SubmitClick s) = timerRunning s
    \<and> length (posts (dispatch Tick s))
        = length (posts s) + (if timerRunning s \<and> timerSeconds s \<le> 1 then 1 else 0)
    \<and> timerRunning (dispatch Tick s) = (timerRunning s \<and> 1 < timerSeconds s)"
proof -
  have a: "active qs s"
    unfolding s_def using assms(1,2) by (intro active_run active_loaded)
  then have arr: "questionsArray s" "Null \<notin> set (questions s)"
    by (auto simp: active_def)
  have "length (posts s) + (if timerRunning s then 1 else 0)
        \<le> length (posts (fetchResolved (Questions qs) s0)) + count_list evs SubmitClick
           + (if timerRunning (fetchResolved (Questions qs) s0) then 1 else 0)"
    unfolding s_def by (rule run_posts_bound)
  then have b: "length (posts s) \<le> count_list evs SubmitClick + 1"
    using assms(1,2) by (simp add: init_posts split: if_splits)
  have c: "length (posts (dispatch SubmitClick s)) = length (posts s) + (if submitShown s then 1 else 0)"
    using arr by (simp add: posts_submitQuiz)
  have d: "timerRunning (dispatch SubmitClick s) = timerRunning s"
    by simp
  have e: "length (posts (dispatch Tick s))
        = length (posts s) + (if timerRunning s \<and> timerSeconds s \<le> 1 then 1 else 0)"
    using arr by (simp add: posts_tick posts_submitQuiz)
  have f: "timerRunning (dispatch Tick s) = (timerRunning s \<and> 1 < timerSeconds s)"
    by auto
  from b c d e f show ?thesis by blast
qed

lemmas quiz_defs = fetchResolved_def loadArray_def renderThrows_def startTimer_def updateTimerDisplay_def renderQuestion_def
  nextClick_def prevClick_def submitQuiz_def tick_def change_def Let_def
  demo_questions_def demo_session_def demo_page_def initQuizPage_def

text \<open>
  C1 as stated fails: a Submit click followed by the expiry of the timer sends two
  requests, and so do two Submit clicks.
\<close>

theorem submit_twice:
  "initQuizPage (demo_page\<lparr>dataTimerSeconds := 2\<rparr>) = Some (demo_session\<lparr>timerSeconds := 2\<rparr>)
   \<and> length (posts (run [NextClick, SubmitClick, Tick, Tick]
         (fetchResolved (Questions demo_questions) (demo_session\<lparr>timerSeconds := 2\<rparr>)))) = 2
   \<and> length (posts (run [NextClick, SubmitClick, SubmitClick]
         (fetchResolved (Questions demo_questions) demo_session))) = 2"
  by (simp add: quiz_defs)

theorem submissions_bounded_witness:
  "initQuizPage demo_page = Some demo_session \<and> demo_questions \<noteq> []
   \<and> length (posts (run [NextClick, SubmitClick]
         (fetchResolved (Questions demo_questions) demo_session))) \<le> 2"
proof -
  have h: "demo_questions \<noteq> []"
    by (simp add: demo_questions_def)
  from submissions_bounded [OF demo_init h, where evs = "[NextClick, SubmitClick]"] demo_init h
  show ?thesis by simp
qed

section \<open>A load that brings no question\<close>












section \<open>The timer display\<close>

lemma below_ten: "d < 10 \<Longrightarrow> d \<in> {0, 1, 2, 3, 4, 5, 6, 7, 8, 9::nat}"
  by auto

lemma digit_char_zero: "d < 10 \<Longrightarrow> digit_char d = CHR ''0'' \<Longrightarrow> d = 0"
  using below_ten [of d] by (auto simp: digit_char_def)

lemma two_digits_zero: "n < 100 \<Longrightarrow> two_digits n = ''00'' \<Longrightarrow> n = 0"
proof -
  assume n: "n < 100" and z: "two_digits n = ''00''"
  from z have a: "digit_char (n div 10) = CHR ''0''" and b: "digit_char (n mod 10) = CHR ''0''"
    by (simp_all add: two_digits_def)
  from n have "n div 10 < 10" by simp
  then have "n div 10 = 0" using a by (rule digit_char_zero)
  moreover have "n mod 10 = 0" using b by (intro digit_char_zero) simp_all
  ultimately show ?thesis by simp
qed

lemma length_str_of_nat: "0 < length (str_of_nat n)"
  by (subst str_of_nat.simps) simp

lemma length_two_digits [simp]: "length (two_digits n) = 2"
  by (simp add: two_digits_def)

lemma str_of_nat_zero: "n < 100 \<Longrightarrow> str_of_nat n = ''0'' \<Longrightarrow> n = 0"
proof (cases "n < 10")
  case True
  assume "str_of_nat n = ''0''"
  with True have "digit_char n = CHR ''0''"
    by (simp add: str_of_nat_small)
  with True show ?thesis by (rule digit_char_zero)
next
  case False
  assume "n < 100" and z: "str_of_nat n = ''0''"
  with False have "str_of_nat n = two_digits n"
    by (simp add: str_of_nat_two)
  with z have "length (two_digits n) = length ''0''" by simp
  then show ?thesis by simp
qed

lemma spec_format_zero: "spec_format t = ''0:00'' \<Longrightarrow> t = 0"
proof (cases "t div 3600 = 0")
  case True
  assume "spec_format t = ''0:00''"
  with True have "str_of_nat (t div 60) @ ('':'' @ two_digits (t mod 60)) = ''0'' @ '':00''"
    by (simp add: spec_format_def)
  then have "str_of_nat (t div 60) = ''0'' \<and> '':'' @ two_digits (t mod 60) = '':00''"
    by (subst (asm) append_eq_append_conv) simp_all
  then have a: "str_of_nat (t div 60) = ''0''" and b: "two_digits (t mod 60) = ''00''"
    by simp_all
  from True have "t < 3600" by (simp add: div_eq_0_iff)
  then have "t div 60 < 100" by simp
  with a have "t div 60 = 0" by (intro str_of_nat_zero)
  moreover have "t mod 60 = 0" using b by (intro two_digits_zero) simp_all
  ultimately show ?thesis by (simp add: div_eq_0_iff)
next
  case False
  assume "spec_format t = ''0:00''"
  with False have "length (str_of_nat (t div 3600) @ '':'' @ two_digits (t div 60 mod 60) @ '':''
           @ two_digits (t mod 60)) = length ''0:00''"
    by (simp add: spec_format_def)
  then show ?thesis
    using length_str_of_nat [of "t div 3600"] by simp
qed

lemma formatDuration_positive: "0 < v \<Longrightarrow> formatDuration v \<noteq> ''0:00''"
proof
  assume v: "0 < v" and z: "formatDuration v = ''0:00''"
  have "formatDuration (int (nat v)) = spec_format (nat v)"
    by (rule formatDuration_nat)
  with v z have "spec_format (nat v) = ''0:00''" by simp
  then have "nat v = 0" by (rule spec_format_zero)
  with v show False by simp
qed

lemma counting_tick: "counting s \<Longrightarrow> timerRunning s \<Longrightarrow> counting (tick s)"
proof (cases "timerSeconds s = 1")
  case True
  assume "counting s" "timerRunning s"
  with True show ?thesis
    by (simp add: counting_def tick_def Let_def)
next
  case False
  assume "counting s" "timerRunning s"
  with False show ?thesis
    by (auto simp: counting_def tick_def Let_def max_def)
qed

lemma counting_dispatch: "counting s \<Longrightarrow> counting (dispatch e s)"
  by (cases e) (simp_all add: counting_tick, simp_all add: counting_def)

lemma counting_run: "counting s \<Longrightarrow> counting (run evs s)"
  by (induction evs arbitrary: s) (simp_all add: counting_dispatch)

lemma counting_loaded:
  "qs \<noteq> [] \<Longrightarrow> 0 < timerSeconds s0 \<Longrightarrow> counting (fetchResolved (Questions qs) s0)"
  by (simp add: counting_def max_def)

lemma formatDuration_one: "formatDuration 1 = ''0:01''"
  by (simp add: formatDuration_def js_rem_def str_of_int_def padStart_def
      str_of_nat.simps digit_char_def)

text \<open>
  C10, for a positive duration. The timer text is always the format of a positive
  number of seconds and never \<open>0:00\<close>; the tick that brings the remaining time to
  zero clears the interval and sends the submission without writing the display, which
  stays at \<open>0:01\<close>.
\<close>

theorem timer_display_positive:
  fixes evs :: "event list" and qs :: "question list" and s0 :: session and p :: page
  assumes "initQuizPage p = Some s0" and "qs \<noteq> []" and "0 < dataTimerSeconds p"
  defines "s \<equiv> run evs (fetchResolved (Questions qs) s0)"
  shows "0 \<le> timerSeconds s
    \<and> timerRunning s = (0 < timerSeconds s)
    \<and> timerText s = formatDuration (max 1 (timerSeconds s))
    \<and> timerText s \<noteq> ''0:00''
    \<and> formatDuration 1 = ''0:01''
    \<and> timerRunning (dispatch Tick s) = (1 < timerSeconds s)
    \<and> timerText (dispatch Tick s)
        = (if 1 < timerSeconds s then formatDuration (timerSeconds s - 1) else timerText s)
    \<and> length (posts (dispatch Tick s)) = length (posts s) + (if timerSeconds s = 1 then 1 else 0)"
proof -
  from assms(1) have "timerSeconds s0 = dataTimerSeconds p"
    by (auto simp: initQuizPage_def split: option.splits if_splits)
  with assms(3) have "0 < timerSeconds s0" by simp
  with assms(2) have "counting (fetchResolved (Questions qs) s0)"
    by (rule counting_loaded)
  then have c: "counting s"
    unfolding s_def by (rule counting_run)
  then have c1: "0 \<le> timerSeconds s" and c2: "timerRunning s = (0 < timerSeconds s)"
    and c3: "timerText s = formatDuration (max 1 (timerSeconds s))"
    by (simp_all add: counting_def)
  have c4: "timerText s \<noteq> ''0:00''"
    unfolding c3 by (rule formatDuration_positive) simp
  have "active qs s"
    unfolding s_def using assms(1,2) by (intro active_run active_loaded)
  then have arr: "questionsArray s" "Null \<notin> set (questions s)"
    by (auto simp: active_def)
  have c5: "timerRunning (dispatch Tick s) = (1 < timerSeconds s)"
    using c2 by auto
  have c6: "timerText (dispatch Tick s)
        = (if 1 < timerSeconds s then formatDuration (timerSeconds s - 1) else timerText s)"
    using c1 c2 by (auto simp: tick_def Let_def)
  have c7: "length (posts (dispatch Tick s)) = length (posts s) + (if timerSeconds s = 1 then 1 else 0)"
    using c1 c2 arr by (auto simp: posts_tick posts_submitQuiz)
  from c1 c2 c3 c4 c5 c6 c7 formatDuration_one show ?thesis by blast
qed

theorem timer_display_positive_witness:
  "initQuizPage (demo_page\<lparr>dataTimerSeconds := 2\<rparr>) = Some (demo_session\<lparr>timerSeconds := 2\<rparr>)
   \<and> demo_questions \<noteq> [] \<and> 0 < dataTimerSeconds (demo_page\<lparr>dataTimerSeconds := 2\<rparr>)
   \<and> timerText (run [Tick, Tick, Tick]
        (fetchResolved (Questions demo_questions) (demo_session\<lparr>timerSeconds := 2\<rparr>))) = ''0:01''"
proof -
  have i: "initQuizPage (demo_page\<lparr>dataTimerSeconds := 2\<rparr>) = Some (demo_session\<lparr>timerSeconds := 2\<rparr>)"
    by (simp add: initQuizPage_def demo_page_def demo_session_def)
  have h: "demo_questions \<noteq> []"
    by (simp add: demo_questions_def)
  have d: "0 < dataTimerSeconds (demo_page\<lparr>dataTimerSeconds := 2\<rparr>)"
    by simp
  have t: "timerSeconds (run [Tick, Tick, Tick]
        (fetchResolved (Questions demo_questions) (demo_session\<lparr>timerSeconds := 2\<rparr>))) = 0"
    using h by (simp add: demo_session_def)
  from timer_display_positive [OF i h d, where evs = "[Tick, Tick, Tick]"] t i h d
  show ?thesis by simp
qed

text \<open>
  C10 as stated fails for the duration 0, the default of a missing attribute: starting
  the timer writes \<open>0:00\<close>.
\<close>

theorem timer_display_zero:
  "initQuizPage (demo_page\<lparr>dataTimerSeconds := 0\<rparr>) = Some (demo_session\<lparr>timerSeconds := 0\<rparr>)
   \<and> timerText (fetchResolved (Questions demo_questions) (demo_session\<lparr>timerSeconds := 0\<rparr>))
       = formatDuration 0
   \<and> formatDuration 0 = ''0:00''"
  by (simp add: quiz_defs formatDuration_def js_rem_def str_of_int_def padStart_def
      str_of_nat.simps digit_char_def)

section \<open>Selections\<close>

lemma parsed_no_return: "CHR 0x0D \<notin> set x \<Longrightarrow> parsed x = x"
  by (induction x rule: parsed.induct) auto

lemma parsed_keeps: "parser_keeps x \<Longrightarrow> parsed x = x"
  by (simp add: parser_keeps_def parsed_no_return)

lemma parsed_nonempty: "x \<noteq> [] \<Longrightarrow> parsed x \<noteq> []"
  by (induction x rule: parsed.induct) simp_all

lemma fresh_cong:
  "questionArea t = questionArea s \<Longrightarrow> currentIndex t = currentIndex s \<Longrightarrow> answers t = answers s
   \<Longrightarrow> fresh qs t = fresh qs s"
  by (simp add: fresh_def)

lemma fresh_render:
  "questions s = map Q qs \<Longrightarrow> currentIndex s < length qs \<Longrightarrow> fresh qs (renderQuestion s)"
  by (simp add: fresh_def renderQuestion_def Let_def)

lemma answers_dispatch: "keeps_answers e \<Longrightarrow> answers (dispatch e s) = answers s"
  by (cases e) simp_all

lemma fresh_prevClick:
  "active qs s \<Longrightarrow> fresh qs s \<or> currentIndex (prevClick s) \<noteq> currentIndex s
   \<Longrightarrow> fresh qs (prevClick s)"
  by (auto simp: prevClick_def active_def intro!: fresh_render)

lemma fresh_nextClick:
  "active qs s \<Longrightarrow> fresh qs s \<or> currentIndex (nextClick s) \<noteq> currentIndex s
   \<Longrightarrow> fresh qs (nextClick s)"
  by (auto simp: nextClick_def active_def intro!: fresh_render)

lemma fresh_dispatch:
  assumes "active qs s" and "keeps_answers e"
    and "fresh qs s \<or> currentIndex (dispatch e s) \<noteq> currentIndex s"
  shows "fresh qs (dispatch e s)"
proof (cases e)
  case Tick
  with assms(3) show ?thesis
    by (auto simp: fresh_cong [of "tick s" s] split: if_splits)
next
  case PrevClick
  with assms(1,3) show ?thesis
    by (auto intro: fresh_prevClick split: if_splits)
next
  case NextClick
  with assms(1,3) show ?thesis
    by (auto intro: fresh_nextClick split: if_splits)
next
  case SubmitClick
  with assms(3) show ?thesis
    by (auto simp: fresh_cong [of "submitQuiz s" s] split: if_splits)
next
  case (Change k)
  with assms(2) show ?thesis by simp
qed

text \<open>
  While no option is selected at index \<open>i\<close>, a session that is away from \<open>i\<close> or
  shows its question fresh stays so: coming back to \<open>i\<close> renders the question anew.
\<close>

lemma settled_dispatch:
  assumes "active qs s" and "keeps_answers e \<or> currentIndex s \<noteq> i"
    and "currentIndex s \<noteq> i \<or> fresh qs s"
  shows "currentIndex (dispatch e s) \<noteq> i \<or> fresh qs (dispatch e s)"
proof (cases "keeps_answers e")
  case True
  show ?thesis
  proof (cases "currentIndex (dispatch e s) = currentIndex s")
    case same: True
    show ?thesis
    proof (cases "currentIndex s = i")
      case True
      with assms(3) have "fresh qs s" by simp
      then have "fresh qs (dispatch e s)"
        using assms(1) \<open>keeps_answers e\<close> by (intro fresh_dispatch [of qs]) simp_all
      then show ?thesis by simp
    next
      case False
      with same show ?thesis by simp
    qed
  next
    case False
    then have "fresh qs (dispatch e s)"
      using assms(1) \<open>keeps_answers e\<close> by (intro fresh_dispatch [of qs]) simp_all
    then show ?thesis by simp
  qed
next
  case False
  then obtain k where "e = Change k"
    by (cases e) simp_all
  with False assms(2) show ?thesis by simp
qed

lemma settled_run:
  "active qs s \<Longrightarrow> answers_elsewhere i evs s \<Longrightarrow> currentIndex s \<noteq> i \<or> fresh qs s
   \<Longrightarrow> currentIndex (run evs s) \<noteq> i \<or> fresh qs (run evs s)"
proof (induction evs arbitrary: s)
  case Nil
  then show ?case by simp
next
  case (Cons e evs)
  have a: "active qs (dispatch e s)"
    using Cons.prems(1) by (rule active_dispatch)
  have k: "keeps_answers e \<or> currentIndex s \<noteq> i" and r: "answers_elsewhere i evs (dispatch e s)"
    using Cons.prems(2) by simp_all
  have "currentIndex (dispatch e s) \<noteq> i \<or> fresh qs (dispatch e s)"
    using Cons.prems(1) k Cons.prems(3) by (rule settled_dispatch)
  with a r show ?case
    using Cons.IH [of "dispatch e s"] by simp
qed

lemma change_active:
  "active qs s \<Longrightarrow> k < length (options (qs ! currentIndex s))
   \<Longrightarrow> answers (change k s)
        = (answers s)(qid (qs ! currentIndex s) \<mapsto> parsed (options (qs ! currentIndex s) ! k))"
  by (cases "questionArea s") (auto simp: active_def change_def)

lemma change_beyond:
  "active qs s \<Longrightarrow> \<not> k < length (options (qs ! currentIndex s)) \<Longrightarrow> change k s = s"
  by (cases "questionArea s") (auto simp: active_def change_def)

text \<open>With distinct identifiers, a selection at another index leaves the answer at \<open>i\<close>.\<close>

lemma kept_dispatch:
  assumes "active qs s" and "distinct (map qid qs)" and "i < length qs"
    and "keeps_answers e \<or> currentIndex s \<noteq> i"
  shows "answers (dispatch e s) (qid (qs ! i)) = answers s (qid (qs ! i))"
proof (cases "keeps_answers e")
  case True
  then show ?thesis by (simp add: answers_dispatch)
next
  case False
  then obtain k where e: "e = Change k"
    by (cases e) simp_all
  with False assms(4) have ne: "currentIndex s \<noteq> i" by simp
  have j: "currentIndex s < length qs"
    using assms(1) by (simp add: active_def)
  have "map qid qs ! currentIndex s \<noteq> map qid qs ! i"
    using assms(2,3) j ne by (simp add: nth_eq_iff_index_eq del: nth_map)
  then have d: "qid (qs ! currentIndex s) \<noteq> qid (qs ! i)"
    using assms(3) j by simp
  show ?thesis
  proof (cases "k < length (options (qs ! currentIndex s))")
    case True
    with assms(1) d show ?thesis
      by (simp add: e change_active)
  next
    case False
    with assms(1) show ?thesis
      by (simp add: e change_beyond)
  qed
qed

lemma kept_run:
  "active qs s \<Longrightarrow> distinct (map qid qs) \<Longrightarrow> i < length qs \<Longrightarrow> answers_elsewhere i evs s
   \<Longrightarrow> answers (run evs s) (qid (qs ! i)) = answers s (qid (qs ! i))"
proof (induction evs arbitrary: s)
  case Nil
  then show ?case by simp
next
  case (Cons e evs)
  have a: "active qs (dispatch e s)"
    using Cons.prems(1) by (rule active_dispatch)
  have k: "keeps_answers e \<or> currentIndex s \<noteq> i" and r: "answers_elsewhere i evs (dispatch e s)"
    using Cons.prems(4) by simp_all
  have "answers (dispatch e s) (qid (qs ! i)) = answers s (qid (qs ! i))"
    using Cons.prems(1,2,3) k by (rule kept_dispatch)
  then show ?case
    using Cons.IH [OF a Cons.prems(2,3) r] by simp
qed

lemma answers_elsewhere_append:
  "answers_elsewhere i (xs @ ys) s
     = (answers_elsewhere i xs s \<and> answers_elsewhere i ys (run xs s))"
  by (induction xs arbitrary: s) auto

text \<open>
  C4, for an option that is not empty and that the parser returns as written (no
  carriage return, no NUL), in a list of questions with distinct identifiers. In any
  state of a loaded session, after the \<open>k\<close>-th option of the current question is
  selected and the session moves to another question and later is back at this one,
  whatever happens in between, other questions being answered too, but no option
  selected at this question, the question is shown with \<open>checked\<close> on exactly the
  options equal to the selected one. A selection stores the value of the option under
  the identifier of the question and leaves every other entry as it was; a second
  selection for the question replaces the first.
\<close>

theorem selection_restored:
  fixes evs0 evs1 evs2 :: "event list" and qs :: "question list" and s0 :: session and p :: page
  assumes "initQuizPage p = Some s0" and "qs \<noteq> []" and "distinct (map qid qs)"
  defines "s \<equiv> run evs0 (fetchResolved (Questions qs) s0)"
  defines "q \<equiv> qs ! currentIndex s"
  assumes "k < length (options q)" and "options q ! k \<noteq> []" and "parser_keeps (options q ! k)"
  defines "s' \<equiv> dispatch (Change k) s"
  assumes "answers_elsewhere (currentIndex s) (evs1 @ evs2) s'"
    and "currentIndex (run evs1 s') \<noteq> currentIndex s"
    and "currentIndex (run (evs1 @ evs2) s') = currentIndex s"
  shows "questionArea (run (evs1 @ evs2) s')
           = Rendered (currentIndex s) q (map (\<lambda>opt. opt = options q ! k) (options q))
    \<and> answers s' = (answers s)(qid q \<mapsto> options q ! k)
    \<and> answers (dispatch (Change k2) s')
        = (if k2 < length (options q) then (answers s)(qid q \<mapsto> parsed (options q ! k2))
           else answers s')"
proof -
  have a: "active qs s"
    unfolding s_def using assms(1,2) by (intro active_run active_loaded)
  then have a': "active qs s'"
    unfolding s'_def by (rule active_dispatch)
  have il: "currentIndex s < length qs"
    using a by (simp add: active_def)
  have i': "currentIndex s' = currentIndex s"
    by (simp add: s'_def)
  have an: "answers s' = (answers s)(qid q \<mapsto> options q ! k)"
    unfolding s'_def q_def using a assms(6,8)
    by (simp add: change_active q_def parsed_keeps)
  have e1: "answers_elsewhere (currentIndex s) evs1 s'"
    and e2: "answers_elsewhere (currentIndex s) evs2 (run evs1 s')"
    using assms(10) by (simp_all add: answers_elsewhere_append)
  define m where "m = run evs1 s'"
  define e where "e = run evs2 m"
  have e_run: "e = run (evs1 @ evs2) s'"
    by (simp add: e_def m_def run_append)
  have am: "active qs m"
    unfolding m_def using a' by (rule active_run)
  have "currentIndex m \<noteq> currentIndex s \<or> fresh qs m"
    using assms(11) by (simp add: m_def)
  with am e2 have "currentIndex e \<noteq> currentIndex s \<or> fresh qs e"
    unfolding e_def m_def [symmetric] by (intro settled_run)
  moreover have ie: "currentIndex e = currentIndex s"
    using assms(12) by (simp add: e_run)
  ultimately have fe: "fresh qs e"
    by simp
  have "answers e (qid (qs ! currentIndex s)) = answers s' (qid (qs ! currentIndex s))"
    unfolding e_run using a' assms(3) il assms(10) by (rule kept_run)
  then have "answers e (qid q) = Some (options q ! k)"
    by (simp add: q_def [symmetric] an)
  then have sel: "selected (answers e) q = Some (options q ! k)"
    using assms(7) by (simp add: selected_def)
  have "questionArea e = Rendered (currentIndex s) q (map (\<lambda>opt. Some (options q ! k) = Some opt) (options q))"
    using fe by (simp add: fresh_def ie q_def [symmetric] sel Let_def)
  moreover have "(\<lambda>opt. Some (options q ! k) = Some opt) = (\<lambda>opt. opt = options q ! k)"
    by auto
  ultimately have r: "questionArea (run (evs1 @ evs2) s')
           = Rendered (currentIndex s) q (map (\<lambda>opt. opt = options q ! k) (options q))"
    by (simp add: e_run)
  have o: "answers (dispatch (Change k2) s')
        = (if k2 < length (options q) then (answers s)(qid q \<mapsto> parsed (options q ! k2))
           else answers s')"
  proof (cases "k2 < length (options q)")
    case True
    then have "answers (change k2 s') = (answers s')(qid q \<mapsto> parsed (options q ! k2))"
      using a' i' by (simp add: change_active q_def)
    with True show ?thesis by (simp add: an)
  next
    case False
    then have "change k2 s' = s'"
      using a' i' by (simp add: change_beyond q_def)
    with False show ?thesis by simp
  qed
  from r an o show ?thesis by blast
qed

theorem selection_restored_witness:
  "initQuizPage demo_page = Some demo_session \<and> demo_questions \<noteq> []
   \<and> distinct (map qid demo_questions)
   \<and> options (demo_questions ! 0) ! 1 = ''Rome'' \<and> parser_keeps ''Rome''
   \<and> currentIndex (run [NextClick, Change 2] (dispatch (Change 1)
         (fetchResolved (Questions demo_questions) demo_session))) \<noteq> 0
   \<and> questionArea (run [NextClick, Change 2, PrevClick] (dispatch (Change 1)
         (fetchResolved (Questions demo_questions) demo_session)))
       = Rendered 0 (demo_questions ! 0) [False, True, False, False]"
proof -
  define L where "L = fetchResolved (Questions demo_questions) demo_session"
  have h: "demo_questions \<noteq> []"
    by (simp add: demo_questions_def)
  have d: "distinct (map qid demo_questions)"
    by (simp add: demo_questions_def)
  have l: "currentIndex L = 0"
    unfolding L_def by (simp add: quiz_defs)
  have o: "options (demo_questions ! 0) = [''Paris'', ''Rome'', ''Oslo'', ''Bern'']"
    by (simp add: demo_questions_def)
  have pk: "parser_keeps ''Rome''"
    by (simp add: parser_keeps_def)
  have el: "answers_elsewhere 0 ([NextClick, Change 2] @ [PrevClick]) (dispatch (Change 1) L)"
    unfolding L_def by (simp add: quiz_defs)
  have away: "currentIndex (run [NextClick, Change 2] (dispatch (Change 1) L)) = 1"
    unfolding L_def by (simp add: quiz_defs)
  have ret: "currentIndex (run ([NextClick, Change 2] @ [PrevClick]) (dispatch (Change 1) L)) = 0"
    unfolding L_def by (simp add: quiz_defs)
  from selection_restored [OF demo_init h d, where ?evs0.0 = "[]" and k = 1
      and ?evs1.0 = "[NextClick, Change 2]" and ?evs2.0 = "[PrevClick]"]
  have "questionArea (run ([NextClick, Change 2] @ [PrevClick]) (dispatch (Change 1) L))
       = Rendered 0 (demo_questions ! 0) [False, True, False, False]"
    unfolding run_Nil L_def [symmetric] l o using pk el away ret by simp
  with demo_init h d o pk away show ?thesis
    unfolding L_def by simp
qed

text \<open>
  C4 as stated fails for an option that is the empty string: it is recorded, but it is
  falsy, and the question comes back with no option checked. It fails too for an
  option with a carriage return: the value recorded is the one the parser read, with a
  line feed, which equals no option of the question.
\<close>

theorem empty_option_not_restored:
  "options (blank_questions ! 0) ! 0 = []
   \<and> answers (run [Change 0, NextClick, PrevClick]
        (fetchResolved (Questions blank_questions) demo_session)) ''21'' = Some []
   \<and> questionArea (run [Change 0, NextClick, PrevClick]
        (fetchResolved (Questions blank_questions) demo_session))
       = Rendered 0 (blank_questions ! 0) [False, False, False, False]
   \<and> options (cr_questions ! 0) ! 0 = [CHR ''a'', CHR 0x0D, CHR ''b'']
   \<and> answers (run [Change 0, NextClick, PrevClick]
        (fetchResolved (Questions cr_questions) demo_session)) ''31''
       = Some [CHR ''a'', CHR 0x0A, CHR ''b'']
   \<and> questionArea (run [Change 0, NextClick, PrevClick]
        (fetchResolved (Questions cr_questions) demo_session))
       = Rendered 0 (cr_questions ! 0) [False, False, False, False]"
  by (simp add: quiz_defs blank_questions_def cr_questions_def selected_def)

section \<open>The submission payload\<close>

lemma fold_collect:
  "fold (\<lambda>q acc. case ans (qid q) of None \<Rightarrow> acc
                  | Some v \<Rightarrow> if v = [] then acc else acc(qid q \<mapsto> v)) qs acc k
   = (if k \<in> qid ` set qs \<and> truthy_at ans k then ans k else acc k)"
proof (induction qs arbitrary: acc)
  case Nil
  then show ?case by simp
next
  case (Cons q qs)
  show ?case
    by (auto simp: Cons.IH truthy_at_def split: option.splits)
qed

lemma collect_apply:
  "collect ans qs k = (if k \<in> qid ` set qs \<and> truthy_at ans k then ans k else None)"
  by (simp add: collect_def fold_collect)

lemma collect_items_questions [simp]: "collect_items ans (map Q qs) = collect ans qs"
proof -
  have "(\<lambda>it acc. case ans (item_key it) of
                     None \<Rightarrow> acc
                   | Some v \<Rightarrow> if v = [] then acc else acc(item_key it \<mapsto> v)) \<circ> Q
      = (\<lambda>q acc. case ans (qid q) of
                     None \<Rightarrow> acc
                   | Some v \<Rightarrow> if v = [] then acc else acc(qid q \<mapsto> v))"
    by (auto simp: fun_eq_iff split: option.splits)
  then show ?thesis
    by (simp add: collect_items_def collect_def fold_map)
qed

lemma recorded_change:
  assumes "active qs s" and "\<forall>q\<in>set qs. [] \<notin> set (options q)" and "recorded qs s"
  shows "recorded qs (change k s)"
proof (cases "k < length (options (qs ! currentIndex s))")
  case True
  from assms(1) have i: "currentIndex s < length qs"
    by (simp add: active_def)
  then have m: "qs ! currentIndex s \<in> set qs"
    by simp
  with assms(2) True have "options (qs ! currentIndex s) ! k \<noteq> []"
    by (metis nth_mem)
  then have "parsed (options (qs ! currentIndex s) ! k) \<noteq> []"
    by (rule parsed_nonempty)
  with m assms(3) show ?thesis
    by (auto simp: recorded_def change_active [OF assms(1) True])
next
  case False
  have "change k s = s"
    using assms(1) False by (rule change_beyond)
  with assms(3) show ?thesis by simp
qed

lemma recorded_dispatch:
  assumes "active qs s" and "\<forall>q\<in>set qs. [] \<notin> set (options q)" and "recorded qs s"
  shows "recorded qs (dispatch e s)"
proof (cases "keeps_answers e")
  case True
  then have "answers (dispatch e s) = answers s"
    by (rule answers_dispatch)
  with assms(3) show ?thesis
    by (simp add: recorded_def)
next
  case False
  then obtain k where "e = Change k"
    by (cases e) simp_all
  with assms show ?thesis
    by (simp add: recorded_change)
qed

lemma recorded_run:
  "active qs s \<Longrightarrow> \<forall>q\<in>set qs. [] \<notin> set (options q) \<Longrightarrow> recorded qs s \<Longrightarrow> recorded qs (run evs s)"
proof (induction evs arbitrary: s)
  case Nil
  then show ?case by simp
next
  case (Cons e evs)
  have "active qs (dispatch e s)"
    using Cons.prems(1) by (rule active_dispatch)
  moreover have "recorded qs (dispatch e s)"
    using Cons.prems by (rule recorded_dispatch)
  ultimately show ?case
    using Cons.IH Cons.prems(2) by simp
qed

lemma recorded_loaded:
  "initQuizPage p = Some s0 \<Longrightarrow> qs \<noteq> [] \<Longrightarrow> recorded qs (fetchResolved (Questions qs) s0)"
  by (auto simp: recorded_def initQuizPage_def fetch_questions startTimer_def
      split: option.splits if_splits)

lemma quizId_dispatch [simp]: "quizId (dispatch e s) = quizId s"
  by (cases e) simp_all

lemma quizId_run [simp]: "quizId (run evs s) = quizId s"
  by (induction evs arbitrary: s) simp_all

lemma quizId_loaded:
  "initQuizPage p = Some s0 \<Longrightarrow> dataQuizId p = Some (quizId (fetchResolved r s0))"
  by (cases r) (auto simp: initQuizPage_def fetchResolved_def loadArray_def startTimer_def
      split: option.splits if_splits)

text \<open>
  C5, for questions with distinct identifiers and non-empty options. The request body
  holds the quiz identifier of the page and, as answers, exactly the recorded
  selections: one entry for each question that has one and none for the others, so as
  many entries as there are questions with a recorded selection.
\<close>

theorem payload_entries:
  fixes evs :: "event list" and qs :: "question list" and s0 :: session and p :: page
  assumes "initQuizPage p = Some s0" and "qs \<noteq> []" and "distinct (map qid qs)"
    and "\<forall>q\<in>set qs. [] \<notin> set (options q)"
  defines "s \<equiv> run evs (fetchResolved (Questions qs) s0)"
  shows "posts (submitQuiz s)
           = posts s @ [\<lparr>quiz_id = quizId s, panswers = collect (answers s) qs\<rparr>]
    \<and> dataQuizId p = Some (quizId s)
    \<and> collect (answers s) qs = answers s
    \<and> dom (collect (answers s) qs) = qid ` {q \<in> set qs. answers s (qid q) \<noteq> None}
    \<and> card (dom (collect (answers s) qs))
        = length (filter (\<lambda>q. answers s (qid q) \<noteq> None) qs)"
proof -
  have a: "active qs s"
    unfolding s_def using assms(1,2) by (intro active_run active_loaded)
  have r: "recorded qs s"
    unfolding s_def using assms(1,2,4) by (intro recorded_run recorded_loaded active_loaded)
  have c1: "posts (submitQuiz s)
           = posts s @ [\<lparr>quiz_id = quizId s, panswers = collect (answers s) qs\<rparr>]"
    using a by (auto simp: posts_submitQuiz active_def)
  have c2: "dataQuizId p = Some (quizId s)"
    using quizId_loaded [OF assms(1), of "Questions qs"] by (simp add: s_def)
  have c3: "collect (answers s) qs = answers s"
  proof
    fix k
    show "collect (answers s) qs k = answers s k"
      using r by (cases "answers s k") (auto simp: collect_apply recorded_def truthy_at_def)
  qed
  have c4: "dom (answers s) = qid ` {q \<in> set qs. answers s (qid q) \<noteq> None}"
  proof
    show "dom (answers s) \<subseteq> qid ` {q \<in> set qs. answers s (qid q) \<noteq> None}"
    proof
      fix k
      assume "k \<in> dom (answers s)"
      then obtain v where v: "answers s k = Some v" by auto
      with r have "k \<in> qid ` set qs" by (simp add: recorded_def)
      then obtain q where "q \<in> set qs" "k = qid q" by auto
      with v show "k \<in> qid ` {q \<in> set qs. answers s (qid q) \<noteq> None}" by auto
    qed
    show "qid ` {q \<in> set qs. answers s (qid q) \<noteq> None} \<subseteq> dom (answers s)"
      by auto
  qed
  have "qid ` {q \<in> set qs. answers s (qid q) \<noteq> None}
        = set (map qid (filter (\<lambda>q. answers s (qid q) \<noteq> None) qs))"
    by auto
  moreover have "distinct (map qid (filter (\<lambda>q. answers s (qid q) \<noteq> None) qs))"
    using assms(3) by (rule distinct_map_filter)
  ultimately have c5: "card (dom (answers s)) = length (filter (\<lambda>q. answers s (qid q) \<noteq> None) qs)"
    unfolding c4 using distinct_card [of "map qid (filter (\<lambda>q. answers s (qid q) \<noteq> None) qs)"]
    by simp
  from c1 c2 c3 c4 c5 show ?thesis by simp
qed

theorem payload_entries_witness:
  "initQuizPage demo_page = Some demo_session \<and> five_questions \<noteq> []
   \<and> distinct (map qid five_questions) \<and> [] \<notin> set (concat (map options five_questions))
   \<and> length five_questions = 5
   \<and> length (filter (\<lambda>q. answers (run [Change 0, NextClick, NextClick, Change 2]
          (fetchResolved (Questions five_questions) demo_session)) (qid q) \<noteq> None) five_questions) = 2
   \<and> card (dom (collect (answers (run [Change 0, NextClick, NextClick, Change 2]
          (fetchResolved (Questions five_questions) demo_session))) five_questions)) = 2"
proof -
  define S where "S = run [Change 0, NextClick, NextClick, Change 2]
          (fetchResolved (Questions five_questions) demo_session)"
  have h: "five_questions \<noteq> []"
    by (simp add: five_questions_def)
  have d: "distinct (map qid five_questions)"
    by (simp add: five_questions_def)
  have n: "\<forall>q\<in>set five_questions. [] \<notin> set (options q)"
    by (simp add: five_questions_def)
  have l: "length five_questions = 5"
    by (simp add: five_questions_def)
  have a: "answers S = [''1'' \<mapsto> ''a'', ''3'' \<mapsto> ''c'']"
    unfolding S_def
    by (simp add: five_questions_def fetch_questions startTimer_def updateTimerDisplay_def
        renderQuestion_def nextClick_def change_def Let_def demo_session_def)
  have f: "length (filter (\<lambda>q. answers S (qid q) \<noteq> None) five_questions) = 2"
    unfolding a by (simp add: five_questions_def)
  from payload_entries [OF demo_init h d n, where evs = "[Change 0, NextClick, NextClick, Change 2]"]
  have "card (dom (collect (answers S) five_questions))
        = length (filter (\<lambda>q. answers S (qid q) \<noteq> None) five_questions)"
    unfolding S_def by blast
  with f have c: "card (dom (collect (answers S) five_questions)) = 2"
    by simp
  have n': "[] \<notin> set (concat (map options five_questions))"
    by (simp add: five_questions_def)
  from demo_init h d n' l f c show ?thesis
    unfolding S_def by blast
qed

text \<open>
  C5 as stated fails for a recorded selection that is the empty string: the question
  has an entry in the answers of the session and none in the payload.
\<close>

theorem empty_selection_omitted:
  "answers (run [Change 0] (fetchResolved (Questions blank_questions) demo_session)) ''21'' = Some []
   \<and> posts (submitQuiz (run [Change 0] (fetchResolved (Questions blank_questions) demo_session)))
       = [\<lparr>quiz_id = ''7'', panswers = collect [''21'' \<mapsto> []] blank_questions\<rparr>]
   \<and> collect [''21'' \<mapsto> []] blank_questions ''21'' = None"
  by (simp add: quiz_defs blank_questions_def collect_def collect_items_def)

section \<open>Reading the options back from the cell\<close>

text \<open>
  C7. The patterns of \<open>extractOptionsFromHtml\<close> look for the text
  \<open>KATEX_INLINE_CLOSE\<close> after the letter, where \<open>renderTable\<close> writes a closing
  parenthesis. On the cell of an ordinary row nothing matches: the text of the cell is
  one piece, there is no line break to split it at, and the first option input gets
  the whole text, letters included, while the other three stay empty.
\<close>

theorem options_not_recovered:
  "cell_text [''Paris'', ''Berlin'', ''London'', ''Rome''] = ''A) ParisB) BerlinC) LondonD) Rome''
   \<and> splitLabel [] ''A) ParisB) BerlinC) LondonD) Rome'' = [''A) ParisB) BerlinC) LondonD) Rome'']
   \<and> extractOptions ''A) ParisB) BerlinC) LondonD) Rome'' = [''A) ParisB) BerlinC) LondonD) Rome'']
   \<and> editOptions [''Paris'', ''Berlin'', ''London'', ''Rome'']
       = [''A) ParisB) BerlinC) LondonD) Rome'', [], [], []]"
  by code_simp

section \<open>Validation on Save\<close>

text \<open>
  C6, with the trimming the script does. Save shows an alert and sends nothing exactly
  when there are not four options, or an option or the question text is empty after
  trimming, or the chosen answer is not one of the trimmed options; otherwise it sends
  the update request with the identifier of the row, the trimmed question and options,
  and the other values as they are. The options \<open>Paris\<close>, empty, \<open>London\<close>,
  \<open>Rome\<close> are rejected, so is the answer \<open>Berlin\<close> that is no option, and a
  valid row is sent with its values.
\<close>

theorem save_validation:
  "is_alert (saveClick r)
     = (length (editOpts r) \<noteq> 4 \<or> [] \<in> set (map trim (editOpts r)) \<or> trim (editQuestion r) = []
        \<or> editAnswer r \<notin> set (map trim (editOpts r)))
   \<and> saveClick r
     = (if is_alert (saveClick r)
        then Alert (if length (editOpts r) \<noteq> 4 \<or> [] \<in> set (map trim (editOpts r))
                    then ''Please provide four options.''
                    else if trim (editQuestion r) = [] then ''Question cannot be empty.''
                    else ''Correct answer must match an option.'')
        else Update \<lparr>uid = rowId r, usubject = editSubject r, uquestion = trim (editQuestion r),
                      uoptions = map trim (editOpts r), uanswer = editAnswer r,
                      udifficulty = editDifficulty r, uexplanation = editExpl r\<rparr>)
   \<and> saveClick (paris_row\<lparr>editOpts := [''Paris'', [], ''London'', ''Rome'']\<rparr>)
       = Alert ''Please provide four options.''
   \<and> saveClick (paris_row\<lparr>editAnswer := ''Berlin'', editOpts := [''Paris'', ''Oslo'', ''London'', ''Rome'']\<rparr>)
       = Alert ''Correct answer must match an option.''
   \<and> saveClick paris_row
       = Update \<lparr>uid = 3, usubject = ''Physics'', uquestion = ''Capital of France?'',
                  uoptions = [''Paris'', ''Berlin'', ''London'', ''Rome''], uanswer = ''Paris'',
                  udifficulty = ''Easy'', uexplanation = []\<rparr>"
proof -
  have a: "is_alert (saveClick r)
     = (length (editOpts r) \<noteq> 4 \<or> [] \<in> set (map trim (editOpts r)) \<or> trim (editQuestion r) = []
        \<or> editAnswer r \<notin> set (map trim (editOpts r)))"
    by (simp add: saveClick_def Let_def)
  have b: "saveClick r
     = (if is_alert (saveClick r)
        then Alert (if length (editOpts r) \<noteq> 4 \<or> [] \<in> set (map trim (editOpts r))
                    then ''Please provide four options.''
                    else if trim (editQuestion r) = [] then ''Question cannot be empty.''
                    else ''Correct answer must match an option.'')
        else Update \<lparr>uid = rowId r, usubject = editSubject r, uquestion = trim (editQuestion r),
                      uoptions = map trim (editOpts r), uanswer = editAnswer r,
                      udifficulty = editDifficulty r, uexplanation = editExpl r\<rparr>)"
    unfolding a by (simp add: saveClick_def Let_def)
  have c: "saveClick (paris_row\<lparr>editOpts := [''Paris'', [], ''London'', ''Rome'']\<rparr>)
       = Alert ''Please provide four options.''"
    by (simp add: saveClick_def Let_def paris_row_def trim_def is_space_def)
  have d: "saveClick (paris_row\<lparr>editAnswer := ''Berlin'', editOpts := [''Paris'', ''Oslo'', ''London'', ''Rome'']\<rparr>)
       = Alert ''Correct answer must match an option.''"
    by (simp add: saveClick_def Let_def paris_row_def trim_def is_space_def)
  have e: "saveClick paris_row
       = Update \<lparr>uid = 3, usubject = ''Physics'', uquestion = ''Capital of France?'',
                  uoptions = [''Paris'', ''Berlin'', ''London'', ''Rome''], uanswer = ''Paris'',
                  udifficulty = ''Easy'', uexplanation = []\<rparr>"
    by (simp add: saveClick_def Let_def paris_row_def trim_def is_space_def)
  from a b c d e show ?thesis by blast
qed

theorem save_validation_witness:
  "is_alert (saveClick (paris_row\<lparr>editQuestion := ''  ''\<rparr>))
   \<and> saveClick (paris_row\<lparr>editQuestion := ''  ''\<rparr>) = Alert ''Question cannot be empty.''"
proof -
  define R where "R = paris_row\<lparr>editQuestion := ''  ''\<rparr>"
  have q: "trim (editQuestion R) = []"
    by (simp add: R_def trim_def is_space_def)
  have o: "length (editOpts R) = 4" "[] \<notin> set (map trim (editOpts R))"
    by (simp_all add: R_def paris_row_def trim_def is_space_def)
  from save_validation [of R]
  have a: "is_alert (saveClick R)
     = (length (editOpts R) \<noteq> 4 \<or> [] \<in> set (map trim (editOpts R)) \<or> trim (editQuestion R) = []
        \<or> editAnswer R \<notin> set (map trim (editOpts R)))"
    and b: "saveClick R
     = (if is_alert (saveClick R)
        then Alert (if length (editOpts R) \<noteq> 4 \<or> [] \<in> set (map trim (editOpts R))
                    then ''Please provide four options.''
                    else if trim (editQuestion R) = [] then ''Question cannot be empty.''
                    else ''Correct answer must match an option.'')
        else Update \<lparr>uid = rowId R, usubject = editSubject R, uquestion = trim (editQuestion R),
                      uoptions = map trim (editOpts R), uanswer = editAnswer R,
                      udifficulty = editDifficulty R, uexplanation = editExpl R\<rparr>)"
    by blast+
  have c: "is_alert (saveClick R)"
    unfolding a using q by simp
  have "saveClick R = Alert ''Question cannot be empty.''"
    by (subst b) (simp only: c q o if_True if_False simp_thms)
  with c show ?thesis
    unfolding R_def by simp
qed

text \<open>
  C6 as stated fails where trimming matters: four non-empty options of which one is a
  single space, or a single no-break space, are rejected, and an answer that matches
  an option only after the option is trimmed is accepted, the request carrying the
  trimmed option.
\<close>

theorem save_blank_option:
  "saveClick (paris_row\<lparr>editOpts := [''Paris'', '' '', ''London'', ''Rome'']\<rparr>)
     = Alert ''Please provide four options.''
   \<and> saveClick (paris_row\<lparr>editOpts := [''Paris'', [CHR 0xA0], ''London'', ''Rome'']\<rparr>)
     = Alert ''Please provide four options.''
   \<and> saveClick (paris_row\<lparr>editOpts := ['' Paris'', ''Berlin'', ''London'', ''Rome'']\<rparr>)
     = Update \<lparr>uid = 3, usubject = ''Physics'', uquestion = ''Capital of France?'',
                uoptions = [''Paris'', ''Berlin'', ''London'', ''Rome''], uanswer = ''Paris'',
                udifficulty = ''Easy'', uexplanation = []\<rparr>"
  by (simp add: saveClick_def Let_def paris_row_def trim_def is_space_def)

end
